theory Spec2Isabelle
  imports Complex_Main "HOL-Library.Multiset"
begin

section \<open>Game engine: role distribution\<close>

text \<open>
  The engine assigns one of six role names to every seat. The source writes them as the
  strings don, mafia, doctor, lover1, lover2 and citizen.
\<close>

datatype role = Don | Mafia | Doctor | Lover1 | Lover2 | Citizen

text \<open>
  The room's role configuration object. Only the truthiness of \<open>doctor\<close> and \<open>lovers\<close>
  is read by the distribution.
\<close>

record roleSettings =
  doctor :: bool
  don :: bool
  lovers :: bool

text \<open>
  \<open>for (let i = 1; i < mafiaCount; i++) roles.push("mafia")\<close>
\<close>

function pushMafia :: "nat \<Rightarrow> nat \<Rightarrow> role list \<Rightarrow> role list" where
  "pushMafia i mafiaCount roles =
     (if i < mafiaCount then pushMafia (i + 1) mafiaCount (roles @ [Mafia]) else roles)"
  by pat_completeness auto
termination
  by (relation "measure (\<lambda>(i, mafiaCount, roles). mafiaCount - i)") auto

declare pushMafia.simps [simp del]

text \<open>
  \<open>while (roles.length < playerCount) roles.push("citizen")\<close>
\<close>

function fillCitizens :: "nat \<Rightarrow> role list \<Rightarrow> role list" where
  "fillCitizens playerCount roles =
     (if length roles < playerCount then fillCitizens playerCount (roles @ [Citizen]) else roles)"
  by pat_completeness auto
termination
  by (relation "measure (\<lambda>(playerCount, roles). playerCount - length roles)") auto

declare fillCitizens.simps [simp del]

text \<open>
  The shuffle runs \<open>i\<close> from \<open>roles.length - 1\<close> down to 1, draws
  \<open>j = Math.floor(Math.random() * (i + 1))\<close> and swaps positions \<open>i\<close> and \<open>j\<close>.
  The value returned by \<open>Math.random()\<close> in the iteration with index \<open>i\<close> is \<open>rnd i\<close>;
  the platform promises a value in the half-open unit interval, which makes \<open>j \<le> i\<close>.
\<close>

definition swapRoles :: "nat \<Rightarrow> nat \<Rightarrow> role list \<Rightarrow> role list" where
  "swapRoles i j roles = roles[i := roles ! j, j := roles ! i]"

fun shuffleLoop :: "(nat \<Rightarrow> real) \<Rightarrow> nat \<Rightarrow> role list \<Rightarrow> role list" where
  "shuffleLoop rnd 0 roles = roles"
| "shuffleLoop rnd (Suc i) roles =
     shuffleLoop rnd i (swapRoles (Suc i) (nat \<lfloor>rnd (Suc i) * real (Suc i + 1)\<rfloor>) roles)"

definition unshuffledRoles :: "nat \<Rightarrow> roleSettings \<Rightarrow> role list" where
  "unshuffledRoles playerCount roleSettings =
     (let roles = [Don];
          mafiaCount = playerCount div 3;
          roles = pushMafia 1 mafiaCount roles;
          roles = (if doctor roleSettings \<and> playerCount \<ge> 5 then roles @ [Doctor] else roles);
          roles = (if lovers roleSettings \<and> playerCount \<ge> 6 then roles @ [Lover1, Lover2] else roles)
      in fillCitizens playerCount roles)"

definition distributeRoles :: "(nat \<Rightarrow> real) \<Rightarrow> 'a list \<Rightarrow> roleSettings \<Rightarrow> role list" where
  "distributeRoles rnd players roleSettings =
     (let roles = unshuffledRoles (length players) roleSettings
      in shuffleLoop rnd (length roles - 1) roles)"

section \<open>Game engine: state\<close>

datatype phase = Night | Day

datatype status = Waiting | Playing | Finished

datatype winner = CitizensWin | MafiaWin

text \<open>
  A roster entry. The role is null until roles are assigned; the only roles ever assigned
  are those of the distribution.
\<close>

record player =
  nickname :: string
  avatar :: string
  isCreator :: bool
  isReady :: bool
  role :: "role option"
  isAlive :: bool

text \<open>
  A pending action \<open>{ action, target, timestamp }\<close>. The verb and the target come from the
  client unchecked, so the verb is any string and the target is a string or null;
  \<open>timestamp\<close> is the clock reading at submission.
\<close>

record pendingAction =
  action :: string
  target :: "string option"
  timestamp :: nat

record logEntry =
  l_phase :: phase
  l_day :: nat
  l_player :: string
  l_action :: string
  l_target :: "string option"
  l_timestamp :: nat

text \<open>
  The outcome line \<open>lastAction\<close>. The source builds a sentence; the constructors stand for
  the five sentence shapes: somebody was killed at night, the night was quiet, somebody
  was voted out, nobody was voted out, and the game is over with a winner.
\<close>

datatype outcome =
    KilledAtNight string
  | QuietNight
  | VotedOut string
  | NobodyVotedOut
  | GameOver winner

text \<open>
  A value stored in the vote tally object: a number, or the string that results when
  \<open>+ 1\<close> is applied to something that is not a number.
\<close>

datatype jsval = Num nat | Str

record game =
  gid :: string
  roomId :: string
  players :: "player list"
  phase :: phase
  day :: nat
  timeLeft :: int
  actions :: "(string \<times> pendingAction) list"
  votingResults :: "(string \<times> jsval) list"
  lastAction :: "outcome option"
  mafiaMembers :: "string list"
  gameLog :: "logEntry list"
  timer :: "nat option"

record chatMessage =
  sender :: string
  message :: string
  m_timestamp :: nat

record room =
  rid :: string
  r_name :: string
  status :: status
  minPlayers :: nat
  maxPlayers :: nat
  creator :: string
  password :: "string option"
  r_players :: "player list"
  roles :: roleSettings
  messages :: "chatMessage list"
  game :: "game option"

text \<open>
  Calls made to the persistence layer by \<open>endGame\<close>, in the order they are issued.
\<close>

datatype dbCall =
    UpdateUserStats string bool bool
  | UpdateUserCoins string int
  | DbEndGame string winner "logEntry list"

text \<open>
  The engine as seen from one room that is in the registry. \<open>room\<close> is the registry entry
  that every method looks up by the room id; the handler passes the same object to
  \<open>handleAction\<close>. For a room that is not in the registry every method returns at once.
  The room has had one game object: while that game is running the room refers to it,
  and once \<open>endGame\<close> has set \<open>room.game = null\<close> it is still referenced by the interval
  callbacks that captured it, so it is kept in \<open>detached\<close>. \<open>timers\<close> holds the handles
  of the intervals that have been created and not cleared, \<open>db\<close> the calls made to the
  store. Every engine method reads and writes the player array of the game. In the source
  the roster of the room holds the same player objects in an array of its own; the model
  keeps the two arrays apart and the engine leaves the roster alone. Handlers run to
  completion one after the other, as on the single event loop when no store call suspends.
\<close>

record engine =
  room :: room
  detached :: "game option"
  timers :: "nat list"
  nextTimer :: nat
  db :: "dbCall list"

section \<open>Game engine: containers\<close>

text \<open>
  \<open>Map.prototype.set\<close>: an existing key keeps its position and gets the new value, a new
  key is appended. Iteration follows this order.
\<close>

fun mapSet :: "'k \<Rightarrow> 'v \<Rightarrow> ('k \<times> 'v) list \<Rightarrow> ('k \<times> 'v) list" where
  "mapSet k v [] = [(k, v)]"
| "mapSet k v ((k', v') # m) = (if k' = k then (k, v) # m else (k', v') # mapSet k v m)"

definition mapHas :: "'k \<Rightarrow> ('k \<times> 'v) list \<Rightarrow> bool" where
  "mapHas k m = (map_of m k \<noteq> None)"

text \<open>
  Truthiness of a value that is a string or null: null and the empty string are falsy.
\<close>

definition truthy :: "string option \<Rightarrow> bool" where
  "truthy v = (case v of None \<Rightarrow> False | Some s \<Rightarrow> s \<noteq> [])"

text \<open>
  The tally \<open>votes\<close> is a plain object literal, so a key that is not an own property is
  looked up on the object prototype. Its function-valued members are listed in
  \<open>inheritedNames\<close>; the accessor \<open>__proto__\<close> is treated apart because assigning a string
  to it stores nothing.
\<close>

definition inheritedNames :: "string list" where
  "inheritedNames =
     [''constructor'', ''hasOwnProperty'', ''isPrototypeOf'', ''propertyIsEnumerable'',
      ''toLocaleString'', ''toString'', ''valueOf'', ''__defineGetter__'',
      ''__defineSetter__'', ''__lookupGetter__'', ''__lookupSetter__'']"

text \<open>
  \<open>votes[k] = (votes[k] || 0) + 1\<close>. An own number is incremented. An own string stays a
  string. A missing key that names an inherited function reads that function, which is
  truthy, and \<open>+ 1\<close> turns it into a string; any other missing key reads undefined and
  the entry becomes 1.
\<close>

definition countVote :: "(string \<times> jsval) list \<Rightarrow> string \<Rightarrow> (string \<times> jsval) list" where
  "countVote votes k =
     (case map_of votes k of
        Some (Num n) \<Rightarrow> mapSet k (Num (n + 1)) votes
      | Some Str \<Rightarrow> mapSet k Str votes
      | None \<Rightarrow>
          if k = ''__proto__'' then votes
          else if k \<in> set inheritedNames then mapSet k Str votes
          else mapSet k (Num 1) votes)"

text \<open>
  \<open>Object.entries\<close> lists the own keys that are array indices first, in ascending numeric
  order, and then the other keys in insertion order. An array index is the canonical
  decimal form of an integer below \<open>2^32 - 1\<close>.
\<close>

definition isDigit :: "char \<Rightarrow> bool" where
  "isDigit c = (c \<in> set ''0123456789'')"

definition parseNat :: "string \<Rightarrow> nat" where
  "parseNat s = foldl (\<lambda>n c. 10 * n + (of_char c - 48)) 0 s"

definition isArrayIndex :: "string \<Rightarrow> bool" where
  "isArrayIndex s =
     (s \<noteq> [] \<and> list_all isDigit s \<and> (s = ''0'' \<or> hd s \<noteq> CHR ''0'')
      \<and> parseNat s < 2 ^ 32 - 1)"

definition objectEntries :: "(string \<times> 'v) list \<Rightarrow> (string \<times> 'v) list" where
  "objectEntries obj =
     sort_key (\<lambda>e. parseNat (fst e)) (filter (\<lambda>e. isArrayIndex (fst e)) obj)
       @ filter (\<lambda>e. \<not> isArrayIndex (fst e)) obj"

section \<open>Game engine: operations\<close>

definition findPlayer :: "string \<Rightarrow> player list \<Rightarrow> player option" where
  "findPlayer n ps = find (\<lambda>p. nickname p = n) ps"

text \<open>
  \<open>game.players.find((p) => p.nickname === player)?.role\<close>
\<close>

definition roleOf :: "player list \<Rightarrow> string \<Rightarrow> role option" where
  "roleOf ps n = (case findPlayer n ps of None \<Rightarrow> None | Some p \<Rightarrow> role p)"

text \<open>
  Writing \<open>isAlive = false\<close> into the object returned by \<open>find\<close> changes the first entry
  with that nickname.
\<close>

fun markDead :: "string \<Rightarrow> player list \<Rightarrow> player list" where
  "markDead n [] = []"
| "markDead n (p # ps) =
     (if nickname p = n then p\<lparr>isAlive := False\<rparr> # ps else p # markDead n ps)"

definition isMafiaRole :: "role option \<Rightarrow> bool" where
  "isMafiaRole r = (r = Some Mafia \<or> r = Some Don)"

definition isCitizenRole :: "role option \<Rightarrow> bool" where
  "isCitizenRole r = (r = Some Citizen \<or> r = Some Doctor)"

definition alivePlayers :: "game \<Rightarrow> player list" where
  "alivePlayers g = filter isAlive (players g)"

definition aliveMafia :: "game \<Rightarrow> player list" where
  "aliveMafia g = filter (\<lambda>p. isMafiaRole (role p)) (alivePlayers g)"

definition aliveCitizens :: "game \<Rightarrow> player list" where
  "aliveCitizens g = filter (\<lambda>p. isCitizenRole (role p)) (alivePlayers g)"

definition setGame :: "engine \<Rightarrow> game \<Rightarrow> engine" where
  "setGame e g = e\<lparr>room := (room e)\<lparr>game := Some g\<rparr>\<rparr>"

text \<open>
  \<open>endGame\<close>: one statistics update and one coin update per player of the game, then the
  room goes back to waiting and loses its game, the store is told the winner, and the
  closing line is written into the game object, which the room no longer refers to.
\<close>

definition playerWon :: "winner \<Rightarrow> player \<Rightarrow> bool" where
  "playerWon w p =
     ((w = CitizensWin \<and> isCitizenRole (role p)) \<or> (w = MafiaWin \<and> isMafiaRole (role p)))"

definition coinReward :: "bool \<Rightarrow> bool \<Rightarrow> int" where
  "coinReward won survived = (if won \<and> survived then 7 else if won then 3 else - 5)"

definition endGame :: "engine \<Rightarrow> winner \<Rightarrow> engine" where
  "endGame e w =
     (case game (room e) of
        None \<Rightarrow> e
      | Some g \<Rightarrow>
          e\<lparr>db := db e
                @ concat (map (\<lambda>p. [UpdateUserStats (nickname p) (playerWon w p) (isAlive p),
                                     UpdateUserCoins (nickname p)
                                       (coinReward (playerWon w p) (isAlive p))])
                            (players g))
                @ [DbEndGame (gid g) w (gameLog g)],
            room := (room e)\<lparr>status := Waiting, game := None\<rparr>,
            detached := Some (g\<lparr>lastAction := Some (GameOver w)\<rparr>)\<rparr>)"

text \<open>
  The local \<open>winner\<close> of \<open>checkWinConditions\<close>.
\<close>

definition decideWinner :: "game \<Rightarrow> winner option" where
  "decideWinner g =
     (if length (aliveMafia g) = 0 then Some CitizensWin
      else if length (aliveMafia g) \<ge> length (aliveCitizens g) then Some MafiaWin
      else None)"

definition checkWinConditions :: "engine \<Rightarrow> bool \<times> engine" where
  "checkWinConditions e =
     (case game (room e) of
        None \<Rightarrow> (False, e)
      | Some g \<Rightarrow>
          (case decideWinner g of
             Some w \<Rightarrow> (True, endGame e w)
           | None \<Rightarrow> (False, e)))"

text \<open>
  \<open>startPhaseTimer\<close> creates a new interval and stores its handle in the game. It clears
  no interval.
\<close>

definition startPhaseTimer :: "engine \<Rightarrow> engine" where
  "startPhaseTimer e =
     (case game (room e) of
        None \<Rightarrow> e
      | Some g \<Rightarrow>
          (setGame e (g\<lparr>timer := Some (nextTimer e)\<rparr>))
            \<lparr>timers := timers e @ [nextTimer e], nextTimer := nextTimer e + 1\<rparr>)"

definition mafiaKills :: "game \<Rightarrow> (string \<times> pendingAction) list" where
  "mafiaKills g =
     filter (\<lambda>(p, a). action a = ''kill'' \<and> isMafiaRole (roleOf (players g) p)) (actions g)"

definition doctorHeals :: "game \<Rightarrow> (string \<times> pendingAction) list" where
  "doctorHeals g =
     filter (\<lambda>(p, a). action a = ''heal'' \<and> roleOf (players g) p = Some Doctor) (actions g)"

text \<open>
  The local \<open>killedPlayer\<close> of \<open>processNightActions\<close>: the roster entry named by the first
  mafia kill, unless a doctor heal names the same target.
\<close>

definition killedPlayer :: "game \<Rightarrow> player option" where
  "killedPlayer g =
     (case mafiaKills g of
        [] \<Rightarrow> None
      | (p, a) # rest \<Rightarrow>
          (let targetNickname = target a;
               isHealed = list_ex (\<lambda>(d, h). target h = targetNickname) (doctorHeals g)
           in if \<not> isHealed
              then (case targetNickname of None \<Rightarrow> None | Some n \<Rightarrow> findPlayer n (players g))
              else None))"

text \<open>
  The writes of \<open>processNightActions\<close> to the game object up to the win check: the victim
  dies, the phase becomes day with 120 seconds, the pending actions are cleared and the
  outcome line is set.
\<close>

definition nightOutcome :: "game \<Rightarrow> game" where
  "nightOutcome g =
     (let killed = killedPlayer g;
          g1 = (case killed of
                  None \<Rightarrow> g
                | Some p \<Rightarrow> g\<lparr>players := markDead (nickname p) (players g)\<rparr>)
      in g1\<lparr>phase := Day, timeLeft := 120, actions := [],
             lastAction := Some (case killed of
                                   Some p \<Rightarrow> KilledAtNight (nickname p)
                                 | None \<Rightarrow> QuietNight)\<rparr>)"

definition processNightActions :: "engine \<Rightarrow> engine" where
  "processNightActions e =
     (case game (room e) of
        None \<Rightarrow> e
      | Some g \<Rightarrow> startPhaseTimer (snd (checkWinConditions (setGame e (nightOutcome g)))))"

text \<open>
  The tally loop of \<open>processDayVoting\<close> over the pending actions in map order, and the
  loop that scans the entries of the tally for a count strictly above the running maximum.
  A string never compares greater than a number.
\<close>

definition tallyVotes :: "(string \<times> pendingAction) list \<Rightarrow> (string \<times> jsval) list" where
  "tallyVotes acts =
     foldl (\<lambda>votes (voter, a).
              if action a = ''vote'' \<and> truthy (target a)
              then (case target a of None \<Rightarrow> votes | Some t \<Rightarrow> countVote votes t)
              else votes)
       [] acts"

fun pickMax :: "(string \<times> jsval) list \<Rightarrow> nat \<Rightarrow> string option \<Rightarrow> nat \<times> string option" where
  "pickMax [] maxVotes votedOut = (maxVotes, votedOut)"
| "pickMax ((t, Num n) # es) maxVotes votedOut =
     (if n > maxVotes then pickMax es n (Some t) else pickMax es maxVotes votedOut)"
| "pickMax ((t, Str) # es) maxVotes votedOut = pickMax es maxVotes votedOut"

text \<open>
  The writes of \<open>processDayVoting\<close> to the game object up to the win check: the player
  voted out dies and the outcome line names that player, or the line says that nobody was voted
  out; a winning target that is no player changes nothing. The tally is published.
\<close>

definition dayOutcome :: "game \<Rightarrow> game" where
  "dayOutcome g =
     (let votes = tallyVotes (actions g);
          (maxVotes, votedOut) = pickMax (objectEntries votes) 0 None;
          g1 = (if truthy votedOut \<and> maxVotes > 0
                then (case votedOut of
                        None \<Rightarrow> g
                      | Some v \<Rightarrow>
                          (case findPlayer v (players g) of
                             Some p \<Rightarrow> g\<lparr>players := markDead v (players g),
                                          lastAction := Some (VotedOut v)\<rparr>
                           | None \<Rightarrow> g))
                else g\<lparr>lastAction := Some NobodyVotedOut\<rparr>)
      in g1\<lparr>votingResults := votes\<rparr>)"

definition processDayVoting :: "engine \<Rightarrow> engine" where
  "processDayVoting e =
     (case game (room e) of
        None \<Rightarrow> e
      | Some g \<Rightarrow>
          (let g2 = dayOutcome g;
               (gameEnded, e1) = checkWinConditions (setGame e g2)
           in if \<not> gameEnded
              then startPhaseTimer
                     (setGame e1 (g2\<lparr>phase := Night, day := day g2 + 1, timeLeft := 60,
                                      actions := []\<rparr>))
              else e1))"

definition checkPhaseCompletion :: "engine \<Rightarrow> engine" where
  "checkPhaseCompletion e =
     (case game (room e) of
        None \<Rightarrow> e
      | Some g \<Rightarrow>
          (case phase g of
             Night \<Rightarrow>
               (let mafiaActions = filter (\<lambda>p. mapHas (nickname p) (actions g)) (aliveMafia g)
                in if length mafiaActions = length (aliveMafia g)
                   then processNightActions e else e)
           | Day \<Rightarrow>
               (let votes = filter (\<lambda>a. action a = ''vote'') (map snd (actions g))
                in if length votes = length (alivePlayers g)
                   then processDayVoting e else e)))"

text \<open>
  \<open>handleAction(room, playerNickname, action, target)\<close>; \<open>now\<close> is the clock reading taken
  for the timestamp.
\<close>

definition submitAction ::
  "game \<Rightarrow> string \<Rightarrow> string \<Rightarrow> string option \<Rightarrow> nat \<Rightarrow> game" where
  "submitAction g playerNickname act tgt now =
     g\<lparr>actions := mapSet playerNickname \<lparr>action = act, target = tgt, timestamp = now\<rparr>
                    (actions g),
       gameLog := gameLog g
         @ [\<lparr>l_phase = phase g, l_day = day g, l_player = playerNickname,
             l_action = act, l_target = tgt, l_timestamp = now\<rparr>]\<rparr>"

definition handleAction ::
  "engine \<Rightarrow> string \<Rightarrow> string \<Rightarrow> string option \<Rightarrow> nat \<Rightarrow> engine" where
  "handleAction e playerNickname act tgt now =
     (case game (room e) of
        None \<Rightarrow> e
      | Some g \<Rightarrow>
          (case findPlayer playerNickname (players g) of
             None \<Rightarrow> e
           | Some p \<Rightarrow>
               if \<not> isAlive p then e
               else checkPhaseCompletion
                      (setGame e (submitAction g playerNickname act tgt now))))"

text \<open>
  One firing of the interval callback with handle \<open>t\<close>. A cleared interval does not fire.
  The callback decrements \<open>timeLeft\<close> of the game object it captured, attached or not, and
  at zero clears its own interval and calls the resolution of the phase the game is in.
\<close>

definition gameObject :: "engine \<Rightarrow> game option" where
  "gameObject e = (case game (room e) of Some g \<Rightarrow> Some g | None \<Rightarrow> detached e)"

definition putGameObject :: "engine \<Rightarrow> game \<Rightarrow> engine" where
  "putGameObject e g =
     (case game (room e) of Some g0 \<Rightarrow> setGame e g | None \<Rightarrow> e\<lparr>detached := Some g\<rparr>)"

definition timerTick :: "engine \<Rightarrow> nat \<Rightarrow> engine" where
  "timerTick e t =
     (if t \<in> set (timers e)
      then (case gameObject e of
              None \<Rightarrow> e
            | Some g \<Rightarrow>
                (let g1 = g\<lparr>timeLeft := timeLeft g - 1\<rparr>; e1 = putGameObject e g1
                 in if timeLeft g1 \<le> 0
                    then (let e2 = e1\<lparr>timers := removeAll t (timers e1)\<rparr>
                          in case phase g1 of
                               Night \<Rightarrow> processNightActions e2
                             | Day \<Rightarrow> processDayVoting e2)
                    else e1))
      else e)"

section \<open>Connection handler: state\<close>

text \<open>
  A connection is identified by a number. \<open>readyState\<close> is the state of its socket; only
  an open socket is written to.
\<close>

datatype readyState = Connecting | Open | Closing | Closed

text \<open>
  The entry of the \<open>users\<close> map: the fields of the stored account that the handler logic
  reads, the room binding and the authentication flag.
\<close>

record user =
  u_nickname :: string
  u_avatar :: string
  currentRoom :: "string option"
  isAuthenticated :: bool

text \<open>
  What the store returns: a call either throws or yields its value.
\<close>

datatype 'a dbResult = DbThrows | DbValue 'a

record dbUser =
  db_nickname :: string
  db_avatar :: string

record dbRoom =
  db_password :: "string option"

text \<open>
  The error texts of the handlers, by meaning: credentials missing, credentials wrong,
  login failed, not authenticated, already in a room, room not found, wrong secret, room
  full, game already started, join failed.
\<close>

datatype errorText =
    CredentialsRequired
  | InvalidCredentials
  | LoginFailed
  | NotAuthenticated
  | AlreadyInRoom
  | RoomNotFound
  | WrongPassword
  | RoomFull
  | GameAlreadyStarted
  | JoinFailed

record playerView =
  v_nickname :: string
  v_avatar :: string
  v_isCreator :: bool
  v_isReady :: bool
  v_isAlive :: bool
  v_role :: "role option"

record gameView =
  v_phase :: phase
  v_day :: nat
  v_timeLeft :: int
  v_votingResults :: "(string \<times> jsval) list"
  v_lastAction :: "outcome option"

record snapshot =
  s_id :: string
  s_name :: string
  s_status :: status
  s_players :: "playerView list"
  s_maxPlayers :: nat
  s_creator :: string
  s_roles :: roleSettings
  s_messages :: "chatMessage list"
  s_game :: "gameView option"

text \<open>
  The system chat lines say that a named user joined or left the room.
\<close>

datatype systemLine = JoinedLine string | LeftLine string

datatype serverMessage =
    ErrorMsg errorText
  | Kicked
  | LoginSuccess string string
  | RoomJoined snapshot
  | RoomUpdated snapshot
  | SystemChat systemLine nat

text \<open>
  The handler: the three maps of the source in insertion order, the socket states, and
  \<open>outbox\<close>, the messages handed to the sockets in the order they were sent.
\<close>

record handler =
  users :: "(nat \<times> user) list"
  rooms :: "(string \<times> room) list"
  usersByNickname :: "(string \<times> nat) list"
  sockets :: "nat \<Rightarrow> readyState"
  outbox :: "(nat \<times> serverMessage) list"

section \<open>Connection handler: operations\<close>

definition mapDelete :: "'k \<Rightarrow> ('k \<times> 'v) list \<Rightarrow> ('k \<times> 'v) list" where
  "mapDelete k m = filter (\<lambda>e. fst e \<noteq> k) m"

definition send :: "handler \<Rightarrow> nat \<Rightarrow> serverMessage \<Rightarrow> handler" where
  "send h ws msg = (if sockets h ws = Open then h\<lparr>outbox := outbox h @ [(ws, msg)]\<rparr> else h)"

definition sendError :: "handler \<Rightarrow> nat \<Rightarrow> errorText \<Rightarrow> handler" where
  "sendError h ws t = send h ws (ErrorMsg t)"

text \<open>
  \<open>ws.close()\<close> starts the closing handshake; the close event arrives later.
\<close>

definition closeSocket :: "handler \<Rightarrow> nat \<Rightarrow> handler" where
  "closeSocket h ws =
     (if sockets h ws = Closed then h else h\<lparr>sockets := (sockets h)(ws := Closing)\<rparr>)"

definition broadcastToRoom :: "handler \<Rightarrow> string \<Rightarrow> serverMessage \<Rightarrow> handler" where
  "broadcastToRoom h r msg =
     (case map_of (rooms h) r of
        None \<Rightarrow> h
      | Some rm \<Rightarrow>
          foldl (\<lambda>h' (ws, u). if currentRoom u = Some r then send h' ws msg else h')
            h (users h))"

definition sanitizeRoomForClient :: "room \<Rightarrow> string option \<Rightarrow> snapshot" where
  "sanitizeRoomForClient rm userNickname =
     \<lparr>s_id = rid rm, s_name = r_name rm, s_status = status rm,
      s_players =
        map (\<lambda>p. \<lparr>v_nickname = nickname p, v_avatar = avatar p, v_isCreator = isCreator p,
                   v_isReady = isReady p, v_isAlive = isAlive p,
                   v_role = (if Some (nickname p) = userNickname \<or> status rm = Finished
                             then role p else None)\<rparr>)
          (r_players rm),
      s_maxPlayers = maxPlayers rm, s_creator = creator rm, s_roles = roles rm,
      s_messages = drop (length (messages rm) - 50) (messages rm),
      s_game =
        (case game rm of
           Some g \<Rightarrow> Some \<lparr>v_phase = phase g, v_day = day g, v_timeLeft = timeLeft g,
                            v_votingResults = votingResults g, v_lastAction = lastAction g\<rparr>
         | None \<Rightarrow> None)\<rparr>"

text \<open>
  \<open>handleLogin\<close>. \<open>res\<close> is what the store's login query does for the submitted
  credentials: it throws, finds no account, or returns the account.
\<close>

definition handleLogin ::
  "handler \<Rightarrow> nat \<Rightarrow> string option \<Rightarrow> string option \<Rightarrow> dbUser option dbResult \<Rightarrow> handler" where
  "handleLogin h ws nick pw res =
     (if \<not> truthy nick \<or> \<not> truthy pw then sendError h ws CredentialsRequired
      else case nick of
        None \<Rightarrow> sendError h ws CredentialsRequired
      | Some n \<Rightarrow>
          (case res of
             DbThrows \<Rightarrow> sendError h ws LoginFailed
           | DbValue None \<Rightarrow> sendError h ws InvalidCredentials
           | DbValue (Some acct) \<Rightarrow>
               (let h1 = (case map_of (usersByNickname h) n of
                            None \<Rightarrow> h
                          | Some existingWs \<Rightarrow>
                              if existingWs \<noteq> ws
                              then closeSocket (send h existingWs Kicked) existingWs
                              else h);
                    h2 = h1\<lparr>users := mapSet ws
                                          \<lparr>u_nickname = db_nickname acct, u_avatar = db_avatar acct,
                                           currentRoom = None, isAuthenticated = True\<rparr>
                                          (users h1),
                            usersByNickname := mapSet n ws (usersByNickname h1)\<rparr>
                in send h2 ws (LoginSuccess (db_nickname acct) (db_avatar acct)))))"

text \<open>
  \<open>splice\<close> at the index of the first roster entry with the nickname.
\<close>

fun removePlayer :: "string \<Rightarrow> player list \<Rightarrow> player list" where
  "removePlayer n [] = []"
| "removePlayer n (p # ps) = (if nickname p = n then ps else p # removePlayer n ps)"

text \<open>
  \<open>leaveRoom\<close> up to its first call to the store; \<open>now\<close> stamps the chat line. The refresh
  of the lobby list that follows depends on the store and is not part of the model.
\<close>

definition leaveRoom :: "handler \<Rightarrow> nat \<Rightarrow> nat \<Rightarrow> handler" where
  "leaveRoom h ws now =
     (case map_of (users h) ws of
        None \<Rightarrow> h
      | Some u \<Rightarrow>
          if \<not> truthy (currentRoom u) then h
          else (case currentRoom u of
                  None \<Rightarrow> h
                | Some r \<Rightarrow>
                    (case map_of (rooms h) r of
                       None \<Rightarrow> h
                     | Some rm \<Rightarrow>
                         (let ps = removePlayer (u_nickname u) (r_players rm);
                              us = mapSet ws (u\<lparr>currentRoom := None\<rparr>) (users h)
                          in if length ps = 0
                             then h\<lparr>users := us, rooms := mapDelete r (rooms h)\<rparr>
                             else
                               (let rm1 = (if creator rm = u_nickname u
                                           then rm\<lparr>r_players := (hd ps)\<lparr>isCreator := True\<rparr> # tl ps,
                                                   creator := nickname (hd ps)\<rparr>
                                           else rm\<lparr>r_players := ps\<rparr>);
                                    h1 = h\<lparr>users := us, rooms := mapSet r rm1 (rooms h)\<rparr>;
                                    h2 = broadcastToRoom h1 r
                                           (RoomUpdated (sanitizeRoomForClient rm1 None))
                                in broadcastToRoom h2 r
                                     (SystemChat (LeftLine (u_nickname u)) now))))))"

text \<open>
  \<open>handleDisconnect\<close> runs when the close event of a socket is delivered.
\<close>

definition handleDisconnect :: "handler \<Rightarrow> nat \<Rightarrow> nat \<Rightarrow> handler" where
  "handleDisconnect h ws now =
     (case map_of (users h) ws of
        None \<Rightarrow> h
      | Some u \<Rightarrow>
          (let h1 = (if truthy (currentRoom u) then leaveRoom h ws now else h);
               h2 = h1\<lparr>users := mapDelete ws (users h1)\<rparr>
           in if u_nickname u \<noteq> []
              then h2\<lparr>usersByNickname := mapDelete (u_nickname u) (usersByNickname h2)\<rparr>
              else h2))"

definition closeEvent :: "handler \<Rightarrow> nat \<Rightarrow> nat \<Rightarrow> handler" where
  "closeEvent h ws now = handleDisconnect (h\<lparr>sockets := (sockets h)(ws := Closed)\<rparr>) ws now"

text \<open>
  \<open>joinRoom\<close> up to the refresh of the lobby list. \<open>res\<close> is what the store returns for
  the room's record.
\<close>

definition joinRoom ::
  "handler \<Rightarrow> nat \<Rightarrow> string \<Rightarrow> string option \<Rightarrow> dbRoom option dbResult \<Rightarrow> nat \<Rightarrow> handler" where
  "joinRoom h ws r pw res now =
     (case map_of (users h) ws of
        None \<Rightarrow> sendError h ws NotAuthenticated
      | Some u \<Rightarrow>
          if \<not> isAuthenticated u then sendError h ws NotAuthenticated
          else if truthy (currentRoom u) then sendError h ws AlreadyInRoom
          else (case map_of (rooms h) r of
                  None \<Rightarrow> sendError h ws RoomNotFound
                | Some rm \<Rightarrow>
                    (case res of
                       DbThrows \<Rightarrow> sendError h ws JoinFailed
                     | DbValue row \<Rightarrow>
                         if (case row of
                               None \<Rightarrow> False
                             | Some d \<Rightarrow> truthy (db_password d) \<and> db_password d \<noteq> pw)
                         then sendError h ws WrongPassword
                         else if length (r_players rm) \<ge> maxPlayers rm
                         then sendError h ws RoomFull
                         else if status rm \<noteq> Waiting then sendError h ws GameAlreadyStarted
                         else
                           (let rm1 = rm\<lparr>r_players := r_players rm
                                          @ [\<lparr>nickname = u_nickname u, avatar = u_avatar u,
                                              isCreator = False, isReady = False, role = None,
                                              isAlive = True\<rparr>]\<rparr>;
                                h1 = h\<lparr>rooms := mapSet r rm1 (rooms h),
                                        users := mapSet ws (u\<lparr>currentRoom := Some r\<rparr>) (users h)\<rparr>;
                                h2 = send h1 ws
                                       (RoomJoined (sanitizeRoomForClient rm1 (Some (u_nickname u))));
                                h3 = broadcastToRoom h2 r
                                       (RoomUpdated (sanitizeRoomForClient rm1 None))
                            in broadcastToRoom h3 r
                                 (SystemChat (JoinedLine (u_nickname u)) now)))))"

section \<open>Example states\<close>

text \<open>
  A seated player with a role, and the game object and engine state as \<open>startGame\<close>
  leaves them: first night, day 1, 60 seconds, no pending action, one running interval.
\<close>

definition seat :: "string \<Rightarrow> role \<Rightarrow> player" where
  "seat n r = \<lparr>nickname = n, avatar = [], isCreator = False, isReady = False,
               role = Some r, isAlive = True\<rparr>"

definition newGame :: "player list \<Rightarrow> game" where
  "newGame ps =
     \<lparr>gid = ''game_1'', roomId = ''room_1'', players = ps, phase = Night, day = 1,
      timeLeft = 60, actions = [], votingResults = [], lastAction = None,
      mafiaMembers = map nickname (filter (\<lambda>p. isMafiaRole (role p)) ps),
      gameLog = [], timer = Some 0\<rparr>"

definition newRoom :: "player list \<Rightarrow> roleSettings \<Rightarrow> room" where
  "newRoom ps cfg =
     \<lparr>rid = ''room_1'', r_name = ''table'', status = Playing, minPlayers = 4,
      maxPlayers = 10, creator = (case ps of [] \<Rightarrow> [] | p # rest \<Rightarrow> nickname p),
      password = None, r_players = ps,
      roles = cfg, messages = [], game = Some (newGame ps)\<rparr>"

definition newEngine :: "player list \<Rightarrow> roleSettings \<Rightarrow> engine" where
  "newEngine ps cfg =
     \<lparr>room = newRoom ps cfg, detached = None, timers = [0], nextTimer = 1, db = []\<rparr>"

definition plainSettings :: roleSettings where
  "plainSettings = \<lparr>doctor = False, don = True, lovers = False\<rparr>"

definition table4 :: "player list" where
  "table4 = [seat ''ann'' Don, seat ''bob'' Citizen, seat ''cat'' Citizen, seat ''dan'' Citizen]"

definition table5 :: "player list" where
  "table5 = [seat ''constructor'' Don, seat ''bob'' Citizen, seat ''cat'' Citizen,
             seat ''dan'' Citizen, seat ''eve'' Citizen]"

definition table6 :: "player list" where
  "table6 = [seat ''ann'' Don, seat ''bob'' Mafia, seat ''cat'' Doctor, seat ''dan'' Citizen,
             seat ''eve'' Lover1, seat ''fay'' Lover2]"

definition table9 :: "player list" where
  "table9 = [seat ''ann'' Don, seat ''bob'' Mafia, seat ''cat'' Mafia, seat ''dan'' Citizen,
             seat ''eve'' Citizen, seat ''fay'' Citizen, seat ''gus'' Citizen,
             seat ''hal'' Citizen, seat ''ivy'' Citizen]"

definition emptyHandler :: handler where
  "emptyHandler = \<lparr>users = [], rooms = [], usersByNickname = [], sockets = (\<lambda>ws. Open),
                    outbox = []\<rparr>"

definition lobbyRoom :: room where
  "lobbyRoom =
     \<lparr>rid = ''room_1'', r_name = ''table'', status = Waiting, minPlayers = 4,
      maxPlayers = 2, creator = ''ann'', password = Some ''s3cret'',
      r_players = [\<lparr>nickname = ''ann'', avatar = [], isCreator = True, isReady = False,
                    role = None, isAlive = True\<rparr>],
      roles = \<lparr>doctor = True, don = True, lovers = False\<rparr>, messages = [], game = None\<rparr>"

definition lobbyHandler :: handler where
  "lobbyHandler =
     \<lparr>users = [(1, \<lparr>u_nickname = ''ann'', u_avatar = [], currentRoom = Some ''room_1'',
                     isAuthenticated = True\<rparr>),
               (2, \<lparr>u_nickname = ''bob'', u_avatar = [], currentRoom = None,
                     isAuthenticated = True\<rparr>)],
      rooms = [(''room_1'', lobbyRoom)],
      usersByNickname = [(''ann'', 1), (''bob'', 2)],
      sockets = (\<lambda>ws. Open), outbox = []\<rparr>"

text \<open>
  The first night of the four-player table after the don has submitted a kill on bob: the
  only living mafia member has acted, so the submission resolves the night.
\<close>

definition nightKilled :: engine where
  "nightKilled = handleAction (newEngine table4 plainSettings) ''ann'' ''kill'' (Some ''bob'') 5"

text \<open>
  The first night of the nine-player table after the don has submitted a kill on dan: two
  more mafia members have yet to act, so the night is still open.
\<close>

definition firstKill :: engine where
  "firstKill = handleAction (newEngine table9 plainSettings) ''ann'' ''kill'' (Some ''dan'') 1"

text \<open>
  The first night of a six-player table with the lovers option on, after the don has
  submitted a kill on the only citizen; the second mafia member has yet to act.
\<close>

definition loversSettings :: roleSettings where
  "loversSettings = \<lparr>doctor = True, don = True, lovers = True\<rparr>"

definition loversNight :: engine where
  "loversNight = handleAction (newEngine table6 loversSettings) ''ann'' ''kill'' (Some ''dan'') 1"

text \<open>
  The same night after the second mafia member has submitted a kill on eve and the don
  has then replaced the kill on dan by one on fay.
\<close>

definition changedKill :: engine where
  "changedKill =
     handleAction (handleAction firstKill ''bob'' ''kill'' (Some ''eve'') 2)
       ''ann'' ''kill'' (Some ''fay'') 3"

text \<open>
  The five-player table after the first night has run out with no action submitted, and
  the day that follows with all five votes cast: three for the player named constructor
  and two for bob.
\<close>

definition dayFive :: engine where
  "dayFive = ((\<lambda>x. timerTick x 0) ^^ 60) (newEngine table5 plainSettings)"

definition votedFive :: engine where
  "votedFive =
     handleAction (handleAction (handleAction (handleAction (handleAction dayFive
       ''bob'' ''vote'' (Some ''constructor'') 101)
       ''cat'' ''vote'' (Some ''constructor'') 102)
       ''constructor'' ''vote'' (Some ''bob'') 103)
       ''dan'' ''vote'' (Some ''constructor'') 104)
       ''eve'' ''vote'' (Some ''bob'') 105"

text \<open>
  A night in which the don names somebody who is not at the table, and a day in which
  all four players vote for such a name: both phases resolve at once, with the last
  submission, and nobody dies. Three such nights and days lead to the fourth night.
\<close>

definition skipNight :: "engine \<Rightarrow> nat \<Rightarrow> engine" where
  "skipNight e now = handleAction e ''ann'' ''kill'' (Some ''nobody'') now"

definition skipDay :: "engine \<Rightarrow> nat \<Rightarrow> engine" where
  "skipDay e now =
     handleAction (handleAction (handleAction (handleAction e
       ''ann'' ''vote'' (Some ''nobody'') now)
       ''bob'' ''vote'' (Some ''nobody'') now)
       ''cat'' ''vote'' (Some ''nobody'') now)
       ''dan'' ''vote'' (Some ''nobody'') now"

definition dayTwo :: engine where
  "dayTwo = skipNight (skipDay (skipNight (newEngine table4 plainSettings) 1) 2) 3"

definition nightFour :: engine where
  "nightFour = skipDay (skipNight (skipDay dayTwo 4) 5) 6"

definition nightFourLastSecond :: engine where
  "nightFourLastSecond =
     foldl timerTick nightFour
       (concat (replicate 8 [0, 1, 2, 3, 4, 5, 6]) @ [0, 1, 2])"

text \<open>
  The account alice logs in on connection 1 and then on connection 2; the close event of
  connection 1 is delivered; alice logs in once more on connection 3.
\<close>

definition aliceAccount :: dbUser where
  "aliceAccount = \<lparr>db_nickname = ''alice'', db_avatar = []\<rparr>"

definition aliceFirst :: handler where
  "aliceFirst =
     handleLogin emptyHandler 1 (Some ''alice'') (Some ''pass'') (DbValue (Some aliceAccount))"

definition aliceSecond :: handler where
  "aliceSecond =
     handleLogin aliceFirst 2 (Some ''alice'') (Some ''pass'') (DbValue (Some aliceAccount))"

definition aliceAfterClose :: handler where
  "aliceAfterClose = closeEvent aliceSecond 1 10"

definition aliceThird :: handler where
  "aliceThird =
     handleLogin aliceAfterClose 3 (Some ''alice'') (Some ''pass'')
       (DbValue (Some aliceAccount))"

text \<open>
  A waiting room whose only member still carries the role of an earlier game, and a
  second user in the lobby.
\<close>

definition replayHandler :: handler where
  "replayHandler =
     lobbyHandler\<lparr>rooms := [(''room_1'',
        lobbyRoom\<lparr>password := None,
                   r_players := [\<lparr>nickname = ''ann'', avatar = [], isCreator = True,
                                  isReady = False, role = Some Don, isAlive = True\<rparr>]\<rparr>)]\<rparr>"

section \<open>Properties of the role distribution\<close>

lemma pushMafia_replicate:
  "pushMafia i mafiaCount xs = xs @ replicate (mafiaCount - i) Mafia"
proof (induction i mafiaCount xs rule: pushMafia.induct)
  case (1 i mafiaCount xs)
  show ?case
  proof (cases "i < mafiaCount")
    case True
    then have "mafiaCount - i = Suc (mafiaCount - (i + 1))" by simp
    with True "1" show ?thesis
      by (simp del: replicate.simps add: pushMafia.simps [of i]) (simp add: replicate_app_Cons_same)
  next
    case False
    then show ?thesis by (simp add: pushMafia.simps [of i])
  qed
qed

lemma fillCitizens_replicate:
  "fillCitizens playerCount xs = xs @ replicate (playerCount - length xs) Citizen"
proof (induction playerCount xs rule: fillCitizens.induct)
  case (1 playerCount xs)
  show ?case
  proof (cases "length xs < playerCount")
    case True
    then have "playerCount - length xs = Suc (playerCount - length (xs @ [Citizen]))"
      by simp
    with True "1" show ?thesis
      by (simp del: replicate.simps add: fillCitizens.simps [of playerCount xs])
         (simp add: replicate_app_Cons_same)
  next
    case False
    then show ?thesis by (simp add: fillCitizens.simps [of playerCount xs])
  qed
qed

lemma shuffleLoop_length: "length (shuffleLoop rnd i xs) = length xs"
  by (induction i arbitrary: xs) (simp_all add: swapRoles_def)

lemma shuffleLoop_mset:
  assumes "\<forall>k. 0 \<le> rnd k \<and> rnd k < 1" and "i < length xs"
  shows "mset (shuffleLoop rnd i xs) = mset xs"
  using assms(2)
proof (induction i arbitrary: xs)
  case 0
  then show ?case by simp
next
  case (Suc i)
  let ?j = "nat \<lfloor>rnd (Suc i) * real (Suc i + 1)\<rfloor>"
  have "rnd (Suc i) * real (Suc i + 1) < real (Suc i + 1)"
    using assms(1) by (simp add: mult_less_cancel_right2)
  then have "\<lfloor>rnd (Suc i) * real (Suc i + 1)\<rfloor> < int (Suc i + 1)"
    by (simp add: floor_less_iff)
  then have j: "?j < length xs" using Suc.prems by linarith
  have "mset (swapRoles (Suc i) ?j xs) = mset xs"
    unfolding swapRoles_def using mset_swap [OF j, of "Suc i"] Suc.prems by simp
  moreover have "i < length (swapRoles (Suc i) ?j xs)"
    using Suc.prems by (simp add: swapRoles_def)
  ultimately show ?case using Suc.IH by simp
qed


lemma unshuffledRoles_eq:
  "unshuffledRoles n rs =
     Don # replicate (n div 3 - 1) Mafia
       @ (if doctor rs \<and> 5 \<le> n then [Doctor] else [])
       @ (if lovers rs \<and> 6 \<le> n then [Lover1, Lover2] else [])
       @ replicate (n - (1 + (n div 3 - 1) + (if doctor rs \<and> 5 \<le> n then 1 else 0)
                          + (if lovers rs \<and> 6 \<le> n then 2 else 0))) Citizen"
  by (simp add: unshuffledRoles_def Let_def pushMafia_replicate fillCitizens_replicate)

lemma unshuffledRoles_length:
  assumes "4 \<le> n"
  shows "length (unshuffledRoles n rs) = n"
proof -
  have "1 + (n div 3 - 1) + 1 + 2 \<le> n" using assms by presburger
  then show ?thesis by (auto simp add: unshuffledRoles_eq)
qed

text \<open>
  Claim C2. For every player count from 4 to 12 and every role configuration, the role
  sequence returned by the distribution has one entry per player, and its multiset is: one
  don, ordinary mafia up to a mafia-type total of \<open>playerCount div 3\<close> (the don counts),
  one doctor exactly when the doctor option is on and there are at least 5 players, the two
  lover roles exactly when the lovers option is on and there are at least 6 players, and
  citizens in all remaining seats. The shuffle only permutes the sequence, whatever values
  the random source returns within its range.
\<close>

theorem distributeRoles_quota:
  assumes "4 \<le> length ps" and "length ps \<le> 12"
    and "\<forall>k. 0 \<le> rnd k \<and> rnd k < 1"
  shows "length (distributeRoles rnd ps rs) = length ps
    \<and> mset (distributeRoles rnd ps rs) =
        {#Don#} + replicate_mset (length ps div 3 - 1) Mafia
        + (if doctor rs \<and> 5 \<le> length ps then {#Doctor#} else {#})
        + (if lovers rs \<and> 6 \<le> length ps then {#Lover1, Lover2#} else {#})
        + replicate_mset
            (length ps - length ps div 3
               - (if doctor rs \<and> 5 \<le> length ps then 1 else 0)
               - (if lovers rs \<and> 6 \<le> length ps then 2 else 0)) Citizen
    \<and> mset (distributeRoles rnd ps rs) = mset (unshuffledRoles (length ps) rs)"
proof -
  let ?n = "length ps"
  let ?u = "unshuffledRoles ?n rs"
  have len: "length ?u = ?n" using assms(1) by (rule unshuffledRoles_length)
  then have "?n - 1 < length ?u" using assms(1) by simp
  then have perm: "mset (distributeRoles rnd ps rs) = mset ?u"
    using shuffleLoop_mset [OF assms(3)] by (simp add: distributeRoles_def Let_def)
  have d3: "1 \<le> ?n div 3" using assms(1) by presburger
  then have cnt: "1 + (?n div 3 - 1) = ?n div 3" by simp
  have "mset ?u =
        {#Don#} + replicate_mset (?n div 3 - 1) Mafia
        + (if doctor rs \<and> 5 \<le> ?n then {#Doctor#} else {#})
        + (if lovers rs \<and> 6 \<le> ?n then {#Lover1, Lover2#} else {#})
        + replicate_mset
            (?n - ?n div 3
               - (if doctor rs \<and> 5 \<le> ?n then 1 else 0)
               - (if lovers rs \<and> 6 \<le> ?n then 2 else 0)) Citizen"
    using cnt by (simp add: unshuffledRoles_eq)
  with perm len show ?thesis
    by (simp add: distributeRoles_def Let_def shuffleLoop_length)
qed

theorem distributeRoles_quota_witness:
  "4 \<le> length [1, 2, 3, 4, 5 :: nat] \<and> length [1, 2, 3, 4, 5 :: nat] \<le> 12
   \<and> (\<forall>k. (0::real) \<le> (\<lambda>_. 0) k \<and> (\<lambda>_. 0 :: real) k < 1)
   \<and> length (distributeRoles (\<lambda>_. 0) [1, 2, 3, 4, 5 :: nat]
               \<lparr>doctor = True, don = True, lovers = False\<rparr>) = 5
   \<and> mset (distributeRoles (\<lambda>_. 0) [1, 2, 3, 4, 5 :: nat]
               \<lparr>doctor = True, don = True, lovers = False\<rparr>)
       = {#Don, Doctor, Citizen, Citizen, Citizen#}"
proof -
  have r3: "replicate_mset 3 Citizen = {#Citizen, Citizen, Citizen#}"
    by (simp add: numeral_3_eq_3)
  show ?thesis
    using distributeRoles_quota [of "[1, 2, 3, 4, 5 :: nat]" "\<lambda>_. 0"
          "\<lparr>doctor = True, don = True, lovers = False\<rparr>"]
    by (simp add: r3)
qed


section \<open>Auxiliary facts\<close>

lemmas engine_defs =
  handleAction_def submitAction_def findPlayer_def setGame_def checkPhaseCompletion_def
  aliveMafia_def aliveCitizens_def alivePlayers_def isMafiaRole_def isCitizenRole_def
  mapHas_def processNightActions_def nightOutcome_def killedPlayer_def mafiaKills_def
  doctorHeals_def roleOf_def checkWinConditions_def decideWinner_def endGame_def
  playerWon_def coinReward_def startPhaseTimer_def processDayVoting_def dayOutcome_def
  tallyVotes_def countVote_def inheritedNames_def objectEntries_def isArrayIndex_def
  isDigit_def parseNat_def truthy_def timerTick_def gameObject_def putGameObject_def Let_def

lemmas fixture_defs =
  seat_def newGame_def newRoom_def newEngine_def plainSettings_def

lemma map_of_mapSet: "map_of (mapSet k v m) = (map_of m)(k \<mapsto> v)"
  by (induction m) (auto simp: fun_eq_iff)

lemma keys_mapSet:
  "map fst (mapSet k v m) = (if k \<in> fst ` set m then map fst m else map fst m @ [k])"
  by (induction m) (force+)

lemma distinct_mapSet: "distinct (map fst m) \<Longrightarrow> distinct (map fst (mapSet k v m))"
  by (simp add: keys_mapSet)

lemma filter_key_mapSet:
  "distinct (map fst m) \<Longrightarrow> filter (\<lambda>x. fst x = k) (mapSet k v m) = [(k, v)]"
proof (induction m)
  case Nil
  then show ?case by simp
next
  case (Cons a m)
  obtain k' v' where a: "a = (k', v')" by (cases a)
  show ?case
  proof (cases "k' = k")
    case True
    have "filter (\<lambda>x. fst x = k) m = []"
      using Cons.prems a True by (auto simp: filter_empty_conv)
    with a True show ?thesis by simp
  next
    case False
    with Cons a show ?thesis by simp
  qed
qed

lemma findPlayer_None: "findPlayer n ps = None \<longleftrightarrow> n \<notin> nickname ` set ps"
  by (auto simp: findPlayer_def find_None_iff)

lemma timerTick_counting:
  assumes "t \<in> set (timers e)" and "game (room e) = Some g" and "1 < timeLeft g"
  shows "timerTick e t = setGame e (g\<lparr>timeLeft := timeLeft g - 1\<rparr>)"
  using assms by (simp add: timerTick_def gameObject_def putGameObject_def Let_def)

lemma timerTick_funpow:
  assumes "t \<in> set (timers e)" and "game (room e) = Some g" and "int n < timeLeft g"
  shows "((\<lambda>x. timerTick x t) ^^ n) e = setGame e (g\<lparr>timeLeft := timeLeft g - int n\<rparr>)"
  using assms
proof (induction n)
  case 0
  then show ?case by (simp add: setGame_def)
next
  case (Suc n)
  then have IH: "((\<lambda>x. timerTick x t) ^^ n) e = setGame e (g\<lparr>timeLeft := timeLeft g - int n\<rparr>)"
    by simp
  have "timerTick (setGame e (g\<lparr>timeLeft := timeLeft g - int n\<rparr>)) t
        = setGame (setGame e (g\<lparr>timeLeft := timeLeft g - int n\<rparr>))
            (g\<lparr>timeLeft := timeLeft g - int n - 1\<rparr>)"
    using Suc.prems by (subst timerTick_counting) (auto simp: setGame_def)
  then show ?case using IH by (simp add: setGame_def algebra_simps)
qed

section \<open>Rejected submissions\<close>

text \<open>
  Claim C10. When the named actor is not in the game's player list, or is in it and not
  alive, \<open>handleAction\<close> returns the engine state it was given: the pending actions, the
  game log, the phase, the day counter, the alive flags, the running intervals and the
  calls to the store are all unchanged. This holds in every state, also in one where a
  completion check would resolve the phase, so no completion check has taken place.
\<close>

theorem handleAction_rejected:
  assumes "game (room e) = Some g"
    and "n \<notin> nickname ` set (players g)
         \<or> (\<exists>p. findPlayer n (players g) = Some p \<and> \<not> isAlive p)"
  shows "handleAction e n act tgt now = e"
  using assms by (auto simp: handleAction_def findPlayer_None [symmetric])

theorem handleAction_rejected_witness:
  "game (room nightKilled) = Some (the (game (room nightKilled)))
   \<and> map (\<lambda>p. (nickname p, isAlive p)) (players (the (game (room nightKilled))))
       = [(''ann'', True), (''bob'', False), (''cat'', True), (''dan'', True)]
   \<and> handleAction nightKilled ''bob'' ''vote'' (Some ''ann'') 9 = nightKilled
   \<and> handleAction nightKilled ''zed'' ''vote'' (Some ''ann'') 9 = nightKilled"
proof -
  have g: "game (room nightKilled) = Some (the (game (room nightKilled)))"
    by (simp add: engine_defs fixture_defs table4_def nightKilled_def)
  have ps: "map (\<lambda>p. (nickname p, isAlive p)) (players (the (game (room nightKilled))))
       = [(''ann'', True), (''bob'', False), (''cat'', True), (''dan'', True)]"
    by (simp add: engine_defs fixture_defs table4_def nightKilled_def)
  have dead: "\<exists>p. findPlayer ''bob'' (players (the (game (room nightKilled)))) = Some p
                \<and> \<not> isAlive p"
    by (simp add: engine_defs fixture_defs table4_def nightKilled_def)
  have absent: "''zed'' \<notin> nickname ` set (players (the (game (room nightKilled))))"
    by (simp add: engine_defs fixture_defs table4_def nightKilled_def)
  show ?thesis
    using g ps handleAction_rejected [OF g disjI2 [OF dead]]
      handleAction_rejected [OF g disjI1 [OF absent]]
    by simp
qed

section \<open>Resubmission\<close>

text \<open>
  Claim C6. A living player has at most one pending action. When a living player submits
  an action, the state that is handed to the completion check, and from there to the
  resolution if the phase is complete, holds exactly one entry for that player, the action
  just submitted; the entries of the other players are as they were and no player has two
  entries. After any non-empty sequence of submissions by the same player within a phase
  the one entry of that player is the last action of the sequence.
\<close>

theorem pending_action_overwritten:
  assumes "game (room e) = Some g" and "findPlayer n (players g) = Some p" and "isAlive p"
    and "distinct (map fst (actions g))"
  shows "handleAction e n act tgt now
           \<in> {setGame e (submitAction g n act tgt now),
              processNightActions (setGame e (submitAction g n act tgt now)),
              processDayVoting (setGame e (submitAction g n act tgt now))}
    \<and> filter (\<lambda>x. fst x = n) (actions (submitAction g n act tgt now))
        = [(n, \<lparr>action = act, target = tgt, timestamp = now\<rparr>)]
    \<and> distinct (map fst (actions (submitAction g n act tgt now)))
    \<and> (\<forall>k. k \<noteq> n \<longrightarrow>
          map_of (actions (submitAction g n act tgt now)) k = map_of (actions g) k)
    \<and> (\<forall>subs. subs \<noteq> [] \<longrightarrow>
          filter (\<lambda>x. fst x = n)
            (actions (foldl (\<lambda>g' s. submitAction g' n (action s) (target s) (timestamp s))
                        g subs))
          = [(n, last subs)])"
proof -
  let ?g = "submitAction g n act tgt now"
  have "handleAction e n act tgt now = checkPhaseCompletion (setGame e ?g)"
    using assms(1-3) by (simp add: handleAction_def)
  moreover have "checkPhaseCompletion (setGame e ?g)
           \<in> {setGame e ?g, processNightActions (setGame e ?g), processDayVoting (setGame e ?g)}"
    by (simp add: checkPhaseCompletion_def setGame_def Let_def split: phase.split)
  ultimately have a: "handleAction e n act tgt now
           \<in> {setGame e ?g, processNightActions (setGame e ?g), processDayVoting (setGame e ?g)}"
    by simp
  have b: "filter (\<lambda>x. fst x = n) (actions ?g)
        = [(n, \<lparr>action = act, target = tgt, timestamp = now\<rparr>)]"
    using assms(4) by (simp add: submitAction_def filter_key_mapSet)
  have c: "distinct (map fst (actions ?g))"
    using assms(4) by (simp add: submitAction_def distinct_mapSet)
  have d: "\<forall>k. k \<noteq> n \<longrightarrow> map_of (actions ?g) k = map_of (actions g) k"
    by (simp add: submitAction_def map_of_mapSet)
  have e: "subs \<noteq> [] \<Longrightarrow>
          filter (\<lambda>x. fst x = n)
            (actions (foldl (\<lambda>g' s. submitAction g' n (action s) (target s) (timestamp s))
                        g subs))
          = [(n, last subs)]" for subs
  proof -
    have inv: "distinct (map fst (actions
           (foldl (\<lambda>g' s. submitAction g' n (action s) (target s) (timestamp s)) g0 ss)))"
      if "distinct (map fst (actions g0))" for g0 ss
      using that
      by (induction ss arbitrary: g0) (simp_all add: submitAction_def distinct_mapSet)
    assume "subs \<noteq> []"
    then obtain ss s where subs: "subs = ss @ [s]" by (metis rev_exhaust)
    let ?h = "foldl (\<lambda>g' s. submitAction g' n (action s) (target s) (timestamp s)) g ss"
    have "distinct (map fst (actions ?h))" using inv [OF assms(4)] .
    then have "filter (\<lambda>x. fst x = n)
                 (actions (submitAction ?h n (action s) (target s) (timestamp s)))
               = [(n, \<lparr>action = action s, target = target s, timestamp = timestamp s\<rparr>)]"
      by (simp add: submitAction_def filter_key_mapSet)
    then show ?thesis using subs by simp
  qed
  from a b c d e show ?thesis by blast
qed

theorem pending_action_overwritten_witness:
  "game (room firstKill) = Some (the (game (room firstKill)))
   \<and> findPlayer ''ann'' (players (the (game (room firstKill)))) = Some (seat ''ann'' Don)
   \<and> isAlive (seat ''ann'' Don)
   \<and> actions (the (game (room firstKill)))
       = [(''ann'', \<lparr>action = ''kill'', target = Some ''dan'', timestamp = 1\<rparr>)]
   \<and> filter (\<lambda>x. fst x = ''ann'')
         (actions (submitAction (the (game (room firstKill))) ''ann'' ''kill'' (Some ''fay'') 3))
       = [(''ann'', \<lparr>action = ''kill'', target = Some ''fay'', timestamp = 3\<rparr>)]
   \<and> map_option actions (game (room (handleAction firstKill ''ann'' ''kill'' (Some ''fay'') 3)))
       = Some [(''ann'', \<lparr>action = ''kill'', target = Some ''fay'', timestamp = 3\<rparr>)]"
proof -
  have g: "game (room firstKill) = Some (the (game (room firstKill)))"
    by (simp add: firstKill_def engine_defs fixture_defs table9_def)
  have f: "findPlayer ''ann'' (players (the (game (room firstKill)))) = Some (seat ''ann'' Don)"
    by (simp add: firstKill_def engine_defs fixture_defs table9_def)
  have a: "isAlive (seat ''ann'' Don)"
    by (simp add: seat_def)
  have acts: "actions (the (game (room firstKill)))
       = [(''ann'', \<lparr>action = ''kill'', target = Some ''dan'', timestamp = 1\<rparr>)]"
    by (simp add: firstKill_def engine_defs fixture_defs table9_def)
  have d: "distinct (map fst (actions (the (game (room firstKill)))))"
    by (simp add: acts)
  have r: "map_option actions
             (game (room (handleAction firstKill ''ann'' ''kill'' (Some ''fay'') 3)))
       = Some [(''ann'', \<lparr>action = ''kill'', target = Some ''fay'', timestamp = 3\<rparr>)]"
    by (simp add: firstKill_def engine_defs fixture_defs table9_def)
  show ?thesis
    using g f a acts r
      pending_action_overwritten [OF g f a d, of "''kill''" "Some ''fay''" 3]
    by simp
qed

section \<open>Win evaluation\<close>

lemma endGame_attached:
  assumes "game (room e) = Some g"
  shows "game (room (endGame e w)) = None" and "status (room (endGame e w)) = Waiting"
    and "db (endGame e w) \<noteq> []" and "last (db (endGame e w)) = DbEndGame (gid g) w (gameLog g)"
  using assms by (simp_all add: endGame_def)

lemma checkWinConditions_attached:
  assumes "game (room e) = Some g"
  shows "checkWinConditions e =
           (case decideWinner g of Some w \<Rightarrow> (True, endGame e w) | None \<Rightarrow> (False, e))"
  using assms by (simp add: checkWinConditions_def)

lemma startPhaseTimer_detached: "game (room e) = None \<Longrightarrow> startPhaseTimer e = e"
  by (simp add: startPhaseTimer_def)

lemma startPhaseTimer_attached:
  assumes "game (room e) = Some g"
  shows "game (room (startPhaseTimer e)) = Some (g\<lparr>timer := Some (nextTimer e)\<rparr>)"
    and "db (startPhaseTimer e) = db e" and "status (room (startPhaseTimer e)) = status (room e)"
    and "detached (startPhaseTimer e) = detached e"
    and "timers (startPhaseTimer e) = timers e @ [nextTimer e]"
  using assms by (simp_all add: startPhaseTimer_def setGame_def)

lemma night_resolution_outcome:
  assumes "game (room e) = Some g"
  shows "case decideWinner (nightOutcome g) of
           Some w \<Rightarrow> game (room (processNightActions e)) = None
                     \<and> status (room (processNightActions e)) = Waiting
                     \<and> db (processNightActions e) \<noteq> []
                     \<and> last (db (processNightActions e)) = DbEndGame (gid g) w (gameLog g)
         | None \<Rightarrow> game (room (processNightActions e)) \<noteq> None
                   \<and> db (processNightActions e) = db e"
proof (cases "decideWinner (nightOutcome g)")
  case None
  then have "processNightActions e = startPhaseTimer (setGame e (nightOutcome g))"
    using assms by (simp add: processNightActions_def checkWinConditions_def setGame_def)
  then show ?thesis using None
    by (simp add: startPhaseTimer_def setGame_def)
next
  case (Some w)
  have att: "game (room (setGame e (nightOutcome g))) = Some (nightOutcome g)"
    by (simp add: setGame_def)
  have "processNightActions e = startPhaseTimer (endGame (setGame e (nightOutcome g)) w)"
    using assms Some by (simp add: processNightActions_def checkWinConditions_def setGame_def)
  then have "processNightActions e = endGame (setGame e (nightOutcome g)) w"
    using endGame_attached(1) [OF att] by (simp add: startPhaseTimer_detached)
  then show ?thesis using Some endGame_attached [OF att, of w]
    by (simp add: nightOutcome_def Let_def split: option.split)
qed

lemma day_resolution_outcome:
  assumes "game (room e) = Some g"
  shows "case decideWinner (dayOutcome g) of
           Some w \<Rightarrow> game (room (processDayVoting e)) = None
                     \<and> status (room (processDayVoting e)) = Waiting
                     \<and> db (processDayVoting e) \<noteq> []
                     \<and> last (db (processDayVoting e)) = DbEndGame (gid g) w (gameLog g)
         | None \<Rightarrow> game (room (processDayVoting e)) \<noteq> None
                   \<and> db (processDayVoting e) = db e"
proof (cases "decideWinner (dayOutcome g)")
  case None
  then show ?thesis using assms
    by (simp add: processDayVoting_def checkWinConditions_def setGame_def Let_def
        startPhaseTimer_def)
next
  case (Some w)
  have att: "game (room (setGame e (dayOutcome g))) = Some (dayOutcome g)"
    by (simp add: setGame_def)
  have "processDayVoting e = endGame (setGame e (dayOutcome g)) w"
    using assms Some by (simp add: processDayVoting_def checkWinConditions_def setGame_def Let_def)
  moreover have "gid (dayOutcome g) = gid g" and "gameLog (dayOutcome g) = gameLog g"
    by (simp_all add: dayOutcome_def Let_def split: prod.split option.split)
  ultimately show ?thesis using Some endGame_attached [OF att, of w]
    by simp
qed

lemma alive_three_groups:
  "length (filter isAlive ps) =
     length (filter (\<lambda>p. isMafiaRole (role p)) (filter isAlive ps))
     + length (filter (\<lambda>p. isCitizenRole (role p)) (filter isAlive ps))
     + length (filter (\<lambda>p. role p \<in> {None, Some Lover1, Some Lover2}) (filter isAlive ps))"
proof (induction ps)
  case Nil
  then show ?case by simp
next
  case (Cons p ps)
  show ?case
  proof (cases "role p")
    case None
    with Cons show ?thesis by (simp add: isMafiaRole_def isCitizenRole_def)
  next
    case (Some r)
    with Cons show ?thesis by (cases r) (simp_all add: isMafiaRole_def isCitizenRole_def)
  qed
qed

text \<open>
  Claim C3, counterexample. Six players with the lovers option on; the two mafia members
  kill the only citizen in the first night. Five players are alive afterwards: two mafia,
  the doctor and the two lovers. The lovers are in neither of the two groups the win check
  counts, so the living players are not partitioned into the two groups; two mafia stand
  against three others and the game ends with the mafia as winner.
\<close>

theorem lovers_outside_win_count:
  "game (room (handleAction loversNight ''bob'' ''kill'' (Some ''dan'') 2)) = None
   \<and> last (db (handleAction loversNight ''bob'' ''kill'' (Some ''dan'') 2))
       = DbEndGame ''game_1'' MafiaWin
           [\<lparr>l_phase = Night, l_day = 1, l_player = ''ann'', l_action = ''kill'',
              l_target = Some ''dan'', l_timestamp = 1\<rparr>,
            \<lparr>l_phase = Night, l_day = 1, l_player = ''bob'', l_action = ''kill'',
              l_target = Some ''dan'', l_timestamp = 2\<rparr>]
   \<and> map_option (\<lambda>g. map nickname (alivePlayers g))
         (detached (handleAction loversNight ''bob'' ''kill'' (Some ''dan'') 2))
       = Some [''ann'', ''bob'', ''cat'', ''eve'', ''fay'']
   \<and> map_option (\<lambda>g. map nickname (aliveMafia g))
         (detached (handleAction loversNight ''bob'' ''kill'' (Some ''dan'') 2))
       = Some [''ann'', ''bob'']
   \<and> map_option (\<lambda>g. map nickname (aliveCitizens g))
         (detached (handleAction loversNight ''bob'' ''kill'' (Some ''dan'') 2))
       = Some [''cat'']"
  by (simp add: loversNight_def loversSettings_def engine_defs fixture_defs table6_def)

text \<open>
  Claim C3, as amended. The win check counts the living players whose role is mafia or
  don, and the living players whose role is citizen or doctor; a living player with a
  lover role or without a role is in neither count. The citizens win exactly when the
  first count is zero. Otherwise the mafia wins exactly when the first count is at least
  the second. Otherwise there is no winner. Every night resolution and every day
  resolution applies this check to the game as the resolution has left it: with a winner
  the game is detached from the room, the room waits again and the store is told the
  winner; with no winner the game stays attached and the store is not called.
\<close>

theorem win_evaluation:
  "length (aliveMafia g)
     = length (filter (\<lambda>p. isAlive p \<and> (role p = Some Mafia \<or> role p = Some Don)) (players g))
   \<and> length (aliveCitizens g)
     = length (filter (\<lambda>p. isAlive p \<and> (role p = Some Citizen \<or> role p = Some Doctor))
                 (players g))
   \<and> length (alivePlayers g)
     = length (aliveMafia g) + length (aliveCitizens g)
       + length (filter (\<lambda>p. role p \<in> {None, Some Lover1, Some Lover2}) (alivePlayers g))
   \<and> (decideWinner g = Some CitizensWin \<longleftrightarrow> length (aliveMafia g) = 0)
   \<and> (decideWinner g = Some MafiaWin \<longleftrightarrow>
        0 < length (aliveMafia g) \<and> length (aliveCitizens g) \<le> length (aliveMafia g))
   \<and> (decideWinner g = None \<longleftrightarrow>
        0 < length (aliveMafia g) \<and> length (aliveMafia g) < length (aliveCitizens g))
   \<and> (game (room e) = Some g \<longrightarrow>
        (case decideWinner (nightOutcome g) of
           Some w \<Rightarrow> game (room (processNightActions e)) = None
                     \<and> status (room (processNightActions e)) = Waiting
                     \<and> db (processNightActions e) \<noteq> []
                     \<and> last (db (processNightActions e)) = DbEndGame (gid g) w (gameLog g)
         | None \<Rightarrow> game (room (processNightActions e)) \<noteq> None
                   \<and> db (processNightActions e) = db e)
        \<and> (case decideWinner (dayOutcome g) of
           Some w \<Rightarrow> game (room (processDayVoting e)) = None
                     \<and> status (room (processDayVoting e)) = Waiting
                     \<and> db (processDayVoting e) \<noteq> []
                     \<and> last (db (processDayVoting e)) = DbEndGame (gid g) w (gameLog g)
         | None \<Rightarrow> game (room (processDayVoting e)) \<noteq> None
                   \<and> db (processDayVoting e) = db e))"
proof -
  have c1: "length (aliveMafia g)
     = length (filter (\<lambda>p. isAlive p \<and> (role p = Some Mafia \<or> role p = Some Don)) (players g))"
    by (simp add: aliveMafia_def alivePlayers_def isMafiaRole_def conj_commute)
  have c2: "length (aliveCitizens g)
     = length (filter (\<lambda>p. isAlive p \<and> (role p = Some Citizen \<or> role p = Some Doctor))
                 (players g))"
    by (simp add: aliveCitizens_def alivePlayers_def isCitizenRole_def conj_commute)
  have c3: "length (alivePlayers g)
     = length (aliveMafia g) + length (aliveCitizens g)
       + length (filter (\<lambda>p. role p \<in> {None, Some Lover1, Some Lover2}) (alivePlayers g))"
    unfolding aliveMafia_def aliveCitizens_def alivePlayers_def by (rule alive_three_groups)
  have w1: "decideWinner g = Some CitizensWin \<longleftrightarrow> length (aliveMafia g) = 0"
    by (simp add: decideWinner_def)
  have w2: "decideWinner g = Some MafiaWin \<longleftrightarrow>
        0 < length (aliveMafia g) \<and> length (aliveCitizens g) \<le> length (aliveMafia g)"
    by (simp add: decideWinner_def)
  have w3: "decideWinner g = None \<longleftrightarrow>
        0 < length (aliveMafia g) \<and> length (aliveMafia g) < length (aliveCitizens g)"
    by (auto simp add: decideWinner_def)
  show ?thesis
    using c1 c2 c3 w1 w2 w3 night_resolution_outcome [of e g] day_resolution_outcome [of e g]
    by blast
qed

theorem win_evaluation_witness:
  "game (room loversNight) = Some (the (game (room loversNight)))
   \<and> decideWinner (nightOutcome (the (game (room loversNight)))) = Some MafiaWin
   \<and> game (room (processNightActions loversNight)) = None
   \<and> status (room (processNightActions loversNight)) = Waiting
   \<and> last (db (processNightActions loversNight))
       = DbEndGame (gid (the (game (room loversNight)))) MafiaWin
           (gameLog (the (game (room loversNight))))
   \<and> decideWinner (the (game (room nightKilled))) = None
   \<and> 0 < length (aliveMafia (the (game (room nightKilled))))
   \<and> length (aliveMafia (the (game (room nightKilled))))
       < length (aliveCitizens (the (game (room nightKilled))))"
proof -
  have g: "game (room loversNight) = Some (the (game (room loversNight)))"
    by (simp add: loversNight_def loversSettings_def engine_defs fixture_defs table6_def)
  have d: "decideWinner (nightOutcome (the (game (room loversNight)))) = Some MafiaWin"
    by (simp add: loversNight_def loversSettings_def engine_defs fixture_defs table6_def)
  have n: "decideWinner (the (game (room nightKilled))) = None"
    by (simp add: engine_defs fixture_defs table4_def nightKilled_def)
  have r: "game (room (processNightActions loversNight)) = None
      \<and> status (room (processNightActions loversNight)) = Waiting
      \<and> last (db (processNightActions loversNight))
          = DbEndGame (gid (the (game (room loversNight)))) MafiaWin
              (gameLog (the (game (room loversNight))))"
    using win_evaluation [of "the (game (room loversNight))" loversNight] g d
    by (elim conjE) simp
  have c: "0 < length (aliveMafia (the (game (room nightKilled))))
      \<and> length (aliveMafia (the (game (room nightKilled))))
          < length (aliveCitizens (the (game (room nightKilled))))"
    using win_evaluation [of "the (game (room nightKilled))" nightKilled] n
    by (elim conjE) blast
  from g d n r c show ?thesis by blast
qed

section \<open>Night resolution\<close>

lemma markDead_absent: "n \<notin> nickname ` set ps \<Longrightarrow> markDead n ps = ps"
  by (induction ps) auto

lemma markDead_others:
  "map nickname (markDead n ps) = map nickname ps
   \<and> filter (\<lambda>p. nickname p \<noteq> n) (markDead n ps) = filter (\<lambda>p. nickname p \<noteq> n) ps"
  by (induction ps) auto

lemma markDead_first_entry:
  assumes "n \<in> nickname ` set ps"
  shows "\<exists>ps1 v ps2. ps = ps1 @ v # ps2 \<and> nickname v = n \<and> n \<notin> nickname ` set ps1
           \<and> markDead n ps = ps1 @ v\<lparr>isAlive := False\<rparr> # ps2"
  using assms
proof (induction ps)
  case Nil
  then show ?case by simp
next
  case (Cons p ps)
  show ?case
  proof (cases "nickname p = n")
    case True
    then have "p # ps = [] @ p # ps \<and> nickname p = n \<and> n \<notin> nickname ` set []
           \<and> markDead n (p # ps) = [] @ p\<lparr>isAlive := False\<rparr> # ps"
      by simp
    then show ?thesis by blast
  next
    case False
    with Cons.prems have "n \<in> nickname ` set ps" by auto
    from Cons.IH [OF this] obtain ps1 v ps2 where
      "ps = ps1 @ v # ps2" "nickname v = n" "n \<notin> nickname ` set ps1"
      "markDead n ps = ps1 @ v\<lparr>isAlive := False\<rparr> # ps2"
      by blast
    with False have "p # ps = (p # ps1) @ v # ps2 \<and> nickname v = n
           \<and> n \<notin> nickname ` set (p # ps1)
           \<and> markDead n (p # ps) = (p # ps1) @ v\<lparr>isAlive := False\<rparr> # ps2"
      by auto
    then show ?thesis by blast
  qed
qed

lemma findPlayer_Some: "findPlayer n ps = Some p \<Longrightarrow> nickname p = n \<and> p \<in> set ps"
  by (auto simp: findPlayer_def find_Some_iff)

lemma gameObject_processNightActions:
  assumes "game (room e) = Some g"
  shows "map_option players (gameObject (processNightActions e)) = Some (players (nightOutcome g))"
proof (cases "decideWinner (nightOutcome g)")
  case None
  then show ?thesis using assms
    by (simp add: processNightActions_def checkWinConditions_def setGame_def
        startPhaseTimer_def gameObject_def)
next
  case (Some w)
  then show ?thesis using assms
    by (simp add: processNightActions_def checkWinConditions_def setGame_def
        startPhaseTimer_def gameObject_def endGame_def)
qed

lemma nightOutcome_players:
  "players (nightOutcome g) =
     (case killedPlayer g of None \<Rightarrow> players g | Some p \<Rightarrow> markDead (nickname p) (players g))"
  by (simp add: nightOutcome_def Let_def split: option.split)

lemma nightOutcome_lastAction:
  "lastAction (nightOutcome g) =
     Some (case killedPlayer g of None \<Rightarrow> QuietNight | Some p \<Rightarrow> KilledAtNight (nickname p))"
  by (simp add: nightOutcome_def Let_def split: option.split)

lemma healed_iff:
  "list_ex (\<lambda>(d, h). target h = t) (doctorHeals g)
   \<longleftrightarrow> (\<exists>x \<in> set (actions g). action (snd x) = ''heal''
          \<and> roleOf (players g) (fst x) = Some Doctor \<and> target (snd x) = t)"
proof
  assume "list_ex (\<lambda>(d, h). target h = t) (doctorHeals g)"
  then obtain x where x: "x \<in> set (doctorHeals g)" and t: "target (snd x) = t"
    by (auto simp: list_ex_iff)
  from x have "x \<in> set (actions g)" and "action (snd x) = ''heal''"
    and "roleOf (players g) (fst x) = Some Doctor"
    by (simp_all add: doctorHeals_def case_prod_beta)
  with t show "\<exists>x \<in> set (actions g). action (snd x) = ''heal''
          \<and> roleOf (players g) (fst x) = Some Doctor \<and> target (snd x) = t"
    by (intro bexI [of _ x]) simp_all
next
  assume "\<exists>x \<in> set (actions g). action (snd x) = ''heal''
          \<and> roleOf (players g) (fst x) = Some Doctor \<and> target (snd x) = t"
  then obtain x where "x \<in> set (actions g)" and "action (snd x) = ''heal''"
    and "roleOf (players g) (fst x) = Some Doctor" and t: "target (snd x) = t"
    by blast
  then have "x \<in> set (doctorHeals g)"
    by (simp add: doctorHeals_def case_prod_beta)
  with t show "list_ex (\<lambda>(d, h). target h = t) (doctorHeals g)"
    unfolding list_ex_iff by (intro bexI [of _ x]) (simp_all add: case_prod_beta)
qed

text \<open>
  Claim C5, counterexample. Nine players, three of them mafia. The don submits a kill on
  dan at time 1, the second mafia member a kill on eve at time 2, and the don then
  replaces the first kill by a kill on fay at time 3. The don's entry keeps its first place in
  the pending map, so when the third mafia member acts and the night resolves, the kill
  honored is the one submitted last of the three: fay dies, dan and eve live.
\<close>

theorem resubmitted_kill_honored:
  "map_option actions (game (room changedKill))
     = Some [(''ann'', \<lparr>action = ''kill'', target = Some ''fay'', timestamp = 3\<rparr>),
             (''bob'', \<lparr>action = ''kill'', target = Some ''eve'', timestamp = 2\<rparr>)]
   \<and> map_option lastAction
        (game (room (handleAction changedKill ''cat'' ''kill'' (Some ''gus'') 4)))
     = Some (Some (KilledAtNight ''fay''))
   \<and> map_option (\<lambda>g. map nickname (filter (\<lambda>p. \<not> isAlive p) (players g)))
        (game (room (handleAction changedKill ''cat'' ''kill'' (Some ''gus'') 4)))
     = Some [''fay'']"
  by (simp add: changedKill_def engine_defs fixture_defs table9_def firstKill_def)

text \<open>
  Claim C5, as amended. In every night resolution with at least one pending kill by a
  mafia-type actor, exactly one kill is honored: the first pending kill by a mafia-type
  actor in the order of the pending map. A player enters that map at the end with the
  first submission of the phase and keeps that place on every later submission, so the order
  is that of the actors' first submissions, whatever the times of the actions now pending.
  If the pending heal of a doctor names the same target, the players are unchanged and the
  outcome line reports a quiet night. Otherwise the player named by the honored kill dies:
  the first roster entry with that nickname has \<open>isAlive\<close> false after the resolution and
  every other entry is as before; if no player has that name, nobody dies.
\<close>

theorem night_kill_by_map_order:
  assumes "game (room e) = Some g" and "mafiaKills g \<noteq> []"
  shows "(\<exists>pre k a post.
            actions g = pre @ (k, a) # post
            \<and> (\<forall>x \<in> set pre. \<not> (action (snd x) = ''kill''
                                 \<and> isMafiaRole (roleOf (players g) (fst x))))
            \<and> action a = ''kill'' \<and> isMafiaRole (roleOf (players g) k)
            \<and> (if \<exists>x \<in> set (actions g). action (snd x) = ''heal''
                     \<and> roleOf (players g) (fst x) = Some Doctor \<and> target (snd x) = target a
               then players (nightOutcome g) = players g
                    \<and> lastAction (nightOutcome g) = Some QuietNight
               else (case target a of
                       None \<Rightarrow> players (nightOutcome g) = players g
                                \<and> lastAction (nightOutcome g) = Some QuietNight
                     | Some n \<Rightarrow>
                         players (nightOutcome g) = markDead n (players g)
                         \<and> lastAction (nightOutcome g)
                             = Some (if n \<in> nickname ` set (players g)
                                     then KilledAtNight n else QuietNight)
                         \<and> (if n \<in> nickname ` set (players g)
                             then \<exists>ps1 v ps2.
                                    players g = ps1 @ v # ps2 \<and> nickname v = n
                                    \<and> n \<notin> nickname ` set ps1
                                    \<and> players (nightOutcome g)
                                        = ps1 @ v\<lparr>isAlive := False\<rparr> # ps2
                             else players (nightOutcome g) = players g))))
    \<and> map_option players (gameObject (processNightActions e)) = Some (players (nightOutcome g))
    \<and> (\<forall>n ps. map nickname (markDead n ps) = map nickname ps
              \<and> filter (\<lambda>p. nickname p \<noteq> n) (markDead n ps)
                  = filter (\<lambda>p. nickname p \<noteq> n) ps)
    \<and> (\<forall>n act tgt now.
          map fst (actions (submitAction g n act tgt now))
            = (if n \<in> fst ` set (actions g) then map fst (actions g)
               else map fst (actions g) @ [n]))"
proof -
  from assms(2) obtain k a rest where mk: "mafiaKills g = (k, a) # rest"
    by (cases "mafiaKills g") auto
  then obtain pre post where split: "actions g = pre @ (k, a) # post"
    and pre: "\<forall>x \<in> set pre. \<not> (case x of (p, b) \<Rightarrow>
                action b = ''kill'' \<and> isMafiaRole (roleOf (players g) p))"
    and hit: "action a = ''kill'' \<and> isMafiaRole (roleOf (players g) k)"
    unfolding mafiaKills_def filter_eq_Cons_iff by auto
  from pre have pre': "\<forall>x \<in> set pre. \<not> (action (snd x) = ''kill''
                                 \<and> isMafiaRole (roleOf (players g) (fst x)))"
    by (auto simp: case_prod_beta)
  let ?healed = "\<exists>x \<in> set (actions g). action (snd x) = ''heal''
                     \<and> roleOf (players g) (fst x) = Some Doctor \<and> target (snd x) = target a"
  have kp: "killedPlayer g =
              (if ?healed then None
               else case target a of None \<Rightarrow> None | Some n \<Rightarrow> findPlayer n (players g))"
  proof (cases ?healed)
    case True
    then have "list_ex (\<lambda>(d, h). target h = target a) (doctorHeals g)"
      by (simp only: healed_iff)
    then show ?thesis using mk True by (simp add: killedPlayer_def Let_def)
  next
    case False
    then have "\<not> list_ex (\<lambda>(d, h). target h = target a) (doctorHeals g)"
      by (simp only: healed_iff not_False_eq_True)
    then show ?thesis using mk False by (auto simp add: killedPlayer_def Let_def)
  qed
  have out: "if ?healed
               then players (nightOutcome g) = players g
                    \<and> lastAction (nightOutcome g) = Some QuietNight
               else (case target a of
                       None \<Rightarrow> players (nightOutcome g) = players g
                                \<and> lastAction (nightOutcome g) = Some QuietNight
                     | Some n \<Rightarrow>
                         players (nightOutcome g) = markDead n (players g)
                         \<and> lastAction (nightOutcome g)
                             = Some (if n \<in> nickname ` set (players g)
                                     then KilledAtNight n else QuietNight)
                         \<and> (if n \<in> nickname ` set (players g)
                             then \<exists>ps1 v ps2.
                                    players g = ps1 @ v # ps2 \<and> nickname v = n
                                    \<and> n \<notin> nickname ` set ps1
                                    \<and> players (nightOutcome g)
                                        = ps1 @ v\<lparr>isAlive := False\<rparr> # ps2
                             else players (nightOutcome g) = players g))"
  proof (cases ?healed)
    case True
    then show ?thesis using kp by (simp add: nightOutcome_players nightOutcome_lastAction)
  next
    case False
    show ?thesis
    proof (cases "target a")
      case None
      then show ?thesis using kp False
        by (simp add: nightOutcome_players nightOutcome_lastAction)
    next
      case (Some n)
      show ?thesis
      proof (cases "findPlayer n (players g)")
        case None
        then have "n \<notin> nickname ` set (players g)" by (simp add: findPlayer_None)
        then show ?thesis using kp False Some None
          by (simp add: nightOutcome_players nightOutcome_lastAction markDead_absent)
      next
        case (Some p)
        from findPlayer_Some [OF this] have "nickname p = n" and "n \<in> nickname ` set (players g)"
          by auto
        then show ?thesis
          using kp False \<open>target a = Some n\<close> Some markDead_first_entry [of n "players g"]
          by (simp add: nightOutcome_players nightOutcome_lastAction)
      qed
    qed
  qed
  have order: "\<forall>n act tgt now.
          map fst (actions (submitAction g n act tgt now))
            = (if n \<in> fst ` set (actions g) then map fst (actions g)
               else map fst (actions g) @ [n])"
    by (simp add: submitAction_def keys_mapSet)
  from split pre' hit out have ex: "\<exists>pre k a post.
            actions g = pre @ (k, a) # post
            \<and> (\<forall>x \<in> set pre. \<not> (action (snd x) = ''kill''
                                 \<and> isMafiaRole (roleOf (players g) (fst x))))
            \<and> action a = ''kill'' \<and> isMafiaRole (roleOf (players g) k)
            \<and> (if \<exists>x \<in> set (actions g). action (snd x) = ''heal''
                     \<and> roleOf (players g) (fst x) = Some Doctor \<and> target (snd x) = target a
               then players (nightOutcome g) = players g
                    \<and> lastAction (nightOutcome g) = Some QuietNight
               else (case target a of
                       None \<Rightarrow> players (nightOutcome g) = players g
                                \<and> lastAction (nightOutcome g) = Some QuietNight
                     | Some n \<Rightarrow>
                         players (nightOutcome g) = markDead n (players g)
                         \<and> lastAction (nightOutcome g)
                             = Some (if n \<in> nickname ` set (players g)
                                     then KilledAtNight n else QuietNight)
                         \<and> (if n \<in> nickname ` set (players g)
                             then \<exists>ps1 v ps2.
                                    players g = ps1 @ v # ps2 \<and> nickname v = n
                                    \<and> n \<notin> nickname ` set ps1
                                    \<and> players (nightOutcome g)
                                        = ps1 @ v\<lparr>isAlive := False\<rparr> # ps2
                             else players (nightOutcome g) = players g)))"
    by blast
  show ?thesis
    using ex gameObject_processNightActions [OF assms(1)] markDead_others order
    by blast
qed


theorem night_kill_by_map_order_witness:
  "game (room changedKill) = Some (the (game (room changedKill)))
   \<and> mafiaKills (the (game (room changedKill)))
       = [(''ann'', \<lparr>action = ''kill'', target = Some ''fay'', timestamp = 3\<rparr>),
          (''bob'', \<lparr>action = ''kill'', target = Some ''eve'', timestamp = 2\<rparr>)]
   \<and> map_option players (gameObject (processNightActions changedKill))
       = Some (players (nightOutcome (the (game (room changedKill)))))
   \<and> lastAction (nightOutcome (the (game (room changedKill)))) = Some (KilledAtNight ''fay'')
   \<and> map nickname (filter (\<lambda>p. \<not> isAlive p)
                      (players (nightOutcome (the (game (room changedKill)))))) = [''fay'']"
proof -
  have g: "game (room changedKill) = Some (the (game (room changedKill)))"
    by (simp add: changedKill_def engine_defs fixture_defs table9_def firstKill_def)
  have mk: "mafiaKills (the (game (room changedKill)))
       = [(''ann'', \<lparr>action = ''kill'', target = Some ''fay'', timestamp = 3\<rparr>),
          (''bob'', \<lparr>action = ''kill'', target = Some ''eve'', timestamp = 2\<rparr>)]"
    by (simp add: changedKill_def engine_defs fixture_defs table9_def firstKill_def)
  then have ne: "mafiaKills (the (game (room changedKill))) \<noteq> []" by simp
  have la: "lastAction (nightOutcome (the (game (room changedKill))))
            = Some (KilledAtNight ''fay'')"
    by (simp add: changedKill_def engine_defs fixture_defs table9_def firstKill_def)
  have dead: "map nickname (filter (\<lambda>p. \<not> isAlive p)
                      (players (nightOutcome (the (game (room changedKill)))))) = [''fay'']"
    by (simp add: changedKill_def engine_defs fixture_defs table9_def firstKill_def)
  have "map_option players (gameObject (processNightActions changedKill))
       = Some (players (nightOutcome (the (game (room changedKill)))))"
    using night_kill_by_map_order [OF g ne] by (elim conjE)
  with g mk la dead show ?thesis by blast
qed

section \<open>Day vote and countdown at concrete runs\<close>

lemma ticks_counting:
  assumes "set ts \<subseteq> set (timers e)" and "game (room e) = Some g"
    and "int (length ts) < timeLeft g"
  shows "foldl timerTick e ts = setGame e (g\<lparr>timeLeft := timeLeft g - int (length ts)\<rparr>)"
  using assms
proof (induction ts arbitrary: e g)
  case Nil
  then show ?case by (simp add: setGame_def)
next
  case (Cons t ts)
  let ?g = "g\<lparr>timeLeft := timeLeft g - 1\<rparr>"
  have step: "timerTick e t = setGame e ?g"
    using Cons.prems by (intro timerTick_counting) auto
  have "foldl timerTick (setGame e ?g) ts
          = setGame (setGame e ?g) (?g\<lparr>timeLeft := timeLeft ?g - int (length ts)\<rparr>)"
    using Cons.prems by (intro Cons.IH) (auto simp: setGame_def)
  then show ?case using step by (simp add: setGame_def algebra_simps)
qed

lemma dayFive_last_tick:
  "dayFive = timerTick (setGame (newEngine table5 plainSettings)
                          ((newGame table5)\<lparr>timeLeft := 1\<rparr>)) 0"
proof -
  have "((\<lambda>x. timerTick x 0) ^^ 59) (newEngine table5 plainSettings)
        = setGame (newEngine table5 plainSettings) ((newGame table5)\<lparr>timeLeft := 1\<rparr>)"
    by (subst timerTick_funpow [where g = "newGame table5"])
       (simp_all add: newEngine_def newRoom_def newGame_def)
  moreover have "(60::nat) = Suc 59" by simp
  ultimately show ?thesis
    unfolding dayFive_def by (simp only: funpow.simps o_def)
qed

text \<open>
  Claim C4 at a concrete day. Five living players, all of whom vote: three votes name the
  player called constructor and two name bob. The tally is a plain object, so the entry
  for constructor starts from the inherited function instead of zero and holds a string,
  which is never above the running maximum. Bob, with two votes, is voted out; the player
  with three votes stays alive and the game goes on to the second night.
\<close>

theorem inherited_name_outvotes_nobody:
  "map_option (\<lambda>g. (phase g, day g, map nickname (alivePlayers g))) (game (room dayFive))
     = Some (Day, 1, [''constructor'', ''bob'', ''cat'', ''dan'', ''eve''])
   \<and> map_option (\<lambda>g. map (\<lambda>l. (l_player l, l_action l, l_target l)) (gameLog g))
        (game (room votedFive))
     = Some [(''bob'', ''vote'', Some ''constructor''), (''cat'', ''vote'', Some ''constructor''),
             (''constructor'', ''vote'', Some ''bob''), (''dan'', ''vote'', Some ''constructor''),
             (''eve'', ''vote'', Some ''bob'')]
   \<and> map_option votingResults (game (room votedFive))
     = Some [(''constructor'', Str), (''bob'', Num 2)]
   \<and> map_option lastAction (game (room votedFive)) = Some (Some (VotedOut ''bob''))
   \<and> map_option (\<lambda>g. (phase g, day g, map nickname (alivePlayers g))) (game (room votedFive))
     = Some (Night, 2, [''constructor'', ''cat'', ''dan'', ''eve''])"
  by (simp add: votedFive_def dayFive_last_tick engine_defs fixture_defs table5_def)

lemma dayTwo_facts:
  "map_option (\<lambda>g. (phase g, day g, timer g)) (game (room dayTwo)) = Some (Day, 2, Some 3)
   \<and> timers dayTwo = [0, 1, 2, 3]"
  by (simp add: dayTwo_def skipNight_def skipDay_def engine_defs fixture_defs table4_def)

lemma nightFour_facts:
  "game (room nightFour) = Some (the (game (room nightFour)))
   \<and> timers nightFour = [0, 1, 2, 3, 4, 5, 6]
   \<and> nextTimer nightFour = 7
   \<and> timeLeft (the (game (room nightFour))) = 60
   \<and> phase (the (game (room nightFour))) = Night
   \<and> day (the (game (room nightFour))) = 4
   \<and> timer (the (game (room nightFour))) = Some 6
   \<and> actions (the (game (room nightFour))) = []
   \<and> players (the (game (room nightFour))) = table4"
  by (simp add: nightFour_def dayTwo_def skipNight_def skipDay_def engine_defs fixture_defs table4_def)

text \<open>
  Claim C1 at a concrete run. Four players; three nights and three days are each
  resolved at once by the submitted actions, and nobody dies. No resolution clears the
  interval of the phase it ends, so the fourth night starts with seven running intervals:
  the six countdowns of the phases already resolved and its own. Each interval takes one
  from the same counter every second. In the ninth second the counter reaches zero in the
  callback of interval 3, the countdown of the second day, which the votes had resolved
  long before: that callback resolves the fourth night, writes an outcome line and moves
  the game to the fourth day.
\<close>

theorem stale_countdown_resolves_later_phase:
  "map_option (\<lambda>g. (phase g, day g, timer g)) (game (room dayTwo)) = Some (Day, 2, Some 3)
   \<and> map_option (\<lambda>g. (phase g, day g, timeLeft g, timer g)) (game (room nightFour))
       = Some (Night, 4, 60, Some 6)
   \<and> timers nightFour = [0, 1, 2, 3, 4, 5, 6]
   \<and> map_option (\<lambda>g. (phase g, day g, timeLeft g)) (game (room nightFourLastSecond))
       = Some (Night, 4, 1)
   \<and> map_option (\<lambda>g. (phase g, day g, timeLeft g, lastAction g, timer g))
         (game (room (timerTick nightFourLastSecond 3)))
       = Some (Day, 4, 120, Some QuietNight, Some 7)
   \<and> timers (timerTick nightFourLastSecond 3) = [0, 1, 2, 4, 5, 6, 7]"
proof -
  define g where "g = the (game (room nightFour))"
  have G: "game (room nightFour) = Some g" and T: "timers nightFour = [0, 1, 2, 3, 4, 5, 6]"
    and N: "nextTimer nightFour = 7"
    and f: "timeLeft g = 60" "phase g = Night" "day g = 4" "timer g = Some 6" "actions g = []"
      "players g = table4"
    using nightFour_facts by (simp_all add: g_def)
  have ls: "nightFourLastSecond = setGame nightFour (g\<lparr>timeLeft := 1\<rparr>)"
    unfolding nightFourLastSecond_def
    by (subst ticks_counting [OF _ G]) (simp_all add: T f length_concat sum_list_replicate)
  have a: "map_option (\<lambda>g. (phase g, day g, timeLeft g, timer g)) (game (room nightFour))
       = Some (Night, 4, 60, Some 6)"
    using G f by simp
  have b: "map_option (\<lambda>g. (phase g, day g, timeLeft g)) (game (room nightFourLastSecond))
       = Some (Night, 4, 1)"
    using f by (simp add: ls setGame_def)
  have c: "map_option (\<lambda>g. (phase g, day g, timeLeft g, lastAction g, timer g))
         (game (room (timerTick nightFourLastSecond 3)))
       = Some (Day, 4, 120, Some QuietNight, Some 7)"
    using f T N by (simp add: ls engine_defs table4_def seat_def)
  have d: "timers (timerTick nightFourLastSecond 3) = [0, 1, 2, 4, 5, 6, 7]"
    using f T N by (simp add: ls engine_defs table4_def seat_def)
  from dayTwo_facts a T b c d show ?thesis by blast
qed

section \<open>Joining a room\<close>

lemma send_fields [simp]:
  "users (send h ws msg) = users h" "rooms (send h ws msg) = rooms h"
  "sockets (send h ws msg) = sockets h" "usersByNickname (send h ws msg) = usersByNickname h"
  by (simp_all add: send_def)

lemma sendError_fields [simp]:
  "users (sendError h ws t) = users h" "rooms (sendError h ws t) = rooms h"
  "sockets (sendError h ws t) = sockets h"
  by (simp_all add: sendError_def)

lemma outbox_send:
  "outbox (send h ws msg) = outbox h @ (if sockets h ws = Open then [(ws, msg)] else [])"
  by (simp add: send_def)

lemma broadcast_fold:
  "foldl (\<lambda>h' (ws, u). if currentRoom u = Some r then send h' ws msg else h') h0 us
     = h0\<lparr>outbox := outbox h0
            @ map (\<lambda>x. (fst x, msg))
                (filter (\<lambda>x. currentRoom (snd x) = Some r \<and> sockets h0 (fst x) = Open) us)\<rparr>"
proof (induction us arbitrary: h0)
  case Nil
  then show ?case by simp
next
  case (Cons x us)
  obtain ws u where x: "x = (ws, u)" by (cases x)
  show ?case
    unfolding x by (simp add: Cons.IH send_def)
qed

lemma broadcastToRoom_outbox:
  assumes "map_of (rooms h) r = Some rm"
  shows "broadcastToRoom h r msg
     = h\<lparr>outbox := outbox h
            @ map (\<lambda>x. (fst x, msg))
                (filter (\<lambda>x. currentRoom (snd x) = Some r \<and> sockets h (fst x) = Open)
                   (users h))\<rparr>"
  using assms by (simp add: broadcastToRoom_def broadcast_fold)



lemma joinRoom_success:
  assumes "map_of (users h) ws = Some u" and "isAuthenticated u" and "\<not> truthy (currentRoom u)"
    and "map_of (rooms h) r = Some rm" and "res = DbValue row"
    and "\<forall>d. row = Some d \<longrightarrow> \<not> truthy (db_password d) \<or> db_password d = pw"
    and "length (r_players rm) < maxPlayers rm" and "status rm = Waiting"
  defines "rm1 \<equiv> rm\<lparr>r_players := r_players rm
                        @ [\<lparr>nickname = u_nickname u, avatar = u_avatar u, isCreator = False,
                            isReady = False, role = None, isAlive = True\<rparr>]\<rparr>"
  defines "us1 \<equiv> mapSet ws (u\<lparr>currentRoom := Some r\<rparr>) (users h)"
  defines "members \<equiv> filter (\<lambda>x. currentRoom (snd x) = Some r \<and> sockets h (fst x) = Open) us1"
  shows "joinRoom h ws r pw res now
     = h\<lparr>rooms := mapSet r rm1 (rooms h), users := us1,
          outbox := outbox h
            @ (if sockets h ws = Open
               then [(ws, RoomJoined (sanitizeRoomForClient rm1 (Some (u_nickname u))))]
               else [])
            @ map (\<lambda>x. (fst x, RoomUpdated (sanitizeRoomForClient rm1 None))) members
            @ map (\<lambda>x. (fst x, SystemChat (JoinedLine (u_nickname u)) now)) members\<rparr>"
proof -
  let ?h1 = "h\<lparr>rooms := mapSet r rm1 (rooms h), users := us1\<rparr>"
  let ?h2 = "send ?h1 ws (RoomJoined (sanitizeRoomForClient rm1 (Some (u_nickname u))))"
  let ?h3 = "broadcastToRoom ?h2 r (RoomUpdated (sanitizeRoomForClient rm1 None))"
  have nopw: "\<not> (case row of None \<Rightarrow> False
                  | Some d \<Rightarrow> truthy (db_password d) \<and> db_password d \<noteq> pw)"
    using assms(6) by (cases row) auto
  have j: "joinRoom h ws r pw res now
             = broadcastToRoom ?h3 r (SystemChat (JoinedLine (u_nickname u)) now)"
    using assms(1-5,7,8) nopw by (simp add: joinRoom_def Let_def rm1_def us1_def)
  have r2: "map_of (rooms ?h2) r = Some rm1" by (simp add: map_of_mapSet)
  have h3: "?h3 = ?h2\<lparr>outbox := outbox ?h2
               @ map (\<lambda>x. (fst x, RoomUpdated (sanitizeRoomForClient rm1 None))) members\<rparr>"
    by (subst broadcastToRoom_outbox [OF r2]) (simp add: members_def)
  have r3: "map_of (rooms ?h3) r = Some rm1" by (simp add: h3 map_of_mapSet)
  show ?thesis
    unfolding j by (subst broadcastToRoom_outbox [OF r3]) (simp add: h3 outbox_send members_def)
qed





section \<open>Role visibility\<close>

text \<open>
  Claim C9. In the snapshot that \<open>sanitizeRoomForClient\<close> builds for a recipient, the
  roster has the room's entries in the room's order, and the role of an entry is the
  player's role when the recipient is that player or the room is finished, and null
  otherwise. So a role that shows in a snapshot is the recipient's own unless the room is
  finished, whatever game the room holds and whatever its phase; a snapshot built for no
  recipient in particular, as the broadcasts do, shows no role before the room is
  finished. On joining, the snapshot sent to the joining connection is built for the
  nickname bound to it and the roster update is built for no recipient.
\<close>

theorem role_visibility:
  "length (s_players (sanitizeRoomForClient rm viewer)) = length (r_players rm)
   \<and> (\<forall>i < length (r_players rm).
         v_nickname (s_players (sanitizeRoomForClient rm viewer) ! i)
           = nickname (r_players rm ! i)
         \<and> v_role (s_players (sanitizeRoomForClient rm viewer) ! i)
           = (if viewer = Some (nickname (r_players rm ! i)) \<or> status rm = Finished
              then role (r_players rm ! i) else None))
   \<and> (\<forall>pv \<in> set (s_players (sanitizeRoomForClient rm viewer)).
         v_role pv \<noteq> None \<longrightarrow> viewer = Some (v_nickname pv) \<or> status rm = Finished)
   \<and> (status rm \<noteq> Finished \<longrightarrow>
         (\<forall>pv \<in> set (s_players (sanitizeRoomForClient rm None)). v_role pv = None))
   \<and> s_players (sanitizeRoomForClient (rm\<lparr>game := gm\<rparr>) viewer)
       = s_players (sanitizeRoomForClient rm viewer)
   \<and> (map_of (users h) ws = Some u \<and> isAuthenticated u \<and> \<not> truthy (currentRoom u)
       \<and> map_of (rooms h) r = Some rm0 \<and> res = DbValue row
       \<and> (\<forall>d. row = Some d \<longrightarrow> \<not> truthy (db_password d) \<or> db_password d = pw)
       \<and> length (r_players rm0) < maxPlayers rm0 \<and> status rm0 = Waiting
      \<longrightarrow> (\<forall>x \<in> set (drop (length (outbox h)) (outbox (joinRoom h ws r pw res now))).
             \<forall>s. snd x = RoomJoined s \<or> snd x = RoomUpdated s \<longrightarrow>
               (\<forall>pv \<in> set (s_players s).
                  v_role pv \<noteq> None \<longrightarrow>
                    map_option u_nickname (map_of (users (joinRoom h ws r pw res now)) (fst x))
                      = Some (v_nickname pv))))"
proof -
  have a: "length (s_players (sanitizeRoomForClient rm viewer)) = length (r_players rm)"
    by (simp add: sanitizeRoomForClient_def)
  have b: "\<forall>i < length (r_players rm).
         v_nickname (s_players (sanitizeRoomForClient rm viewer) ! i)
           = nickname (r_players rm ! i)
         \<and> v_role (s_players (sanitizeRoomForClient rm viewer) ! i)
           = (if viewer = Some (nickname (r_players rm ! i)) \<or> status rm = Finished
              then role (r_players rm ! i) else None)"
    by (auto simp add: sanitizeRoomForClient_def)
  have c: "\<forall>pv \<in> set (s_players (sanitizeRoomForClient rm' viewer')).
         v_role pv \<noteq> None \<longrightarrow> viewer' = Some (v_nickname pv) \<or> status rm' = Finished"
    for rm' viewer'
    by (auto simp add: sanitizeRoomForClient_def split: if_splits)
  have d: "status rm \<noteq> Finished \<longrightarrow>
         (\<forall>pv \<in> set (s_players (sanitizeRoomForClient rm None)). v_role pv = None)"
    using c [of rm None] by auto
  have e: "s_players (sanitizeRoomForClient (rm\<lparr>game := gm\<rparr>) viewer)
       = s_players (sanitizeRoomForClient rm viewer)"
    by (simp add: sanitizeRoomForClient_def)
  have f: "\<forall>x \<in> set (drop (length (outbox h)) (outbox (joinRoom h ws r pw res now))).
             \<forall>s. snd x = RoomJoined s \<or> snd x = RoomUpdated s \<longrightarrow>
               (\<forall>pv \<in> set (s_players s).
                  v_role pv \<noteq> None \<longrightarrow>
                    map_option u_nickname (map_of (users (joinRoom h ws r pw res now)) (fst x))
                      = Some (v_nickname pv))"
    if pre: "map_of (users h) ws = Some u" "isAuthenticated u" "\<not> truthy (currentRoom u)"
       "map_of (rooms h) r = Some rm0" "res = DbValue row"
       "\<forall>d. row = Some d \<longrightarrow> \<not> truthy (db_password d) \<or> db_password d = pw"
       "length (r_players rm0) < maxPlayers rm0" "status rm0 = Waiting"
  proof -
    let ?rm1 = "rm0\<lparr>r_players := r_players rm0
                        @ [\<lparr>nickname = u_nickname u, avatar = u_avatar u, isCreator = False,
                            isReady = False, role = None, isAlive = True\<rparr>]\<rparr>"
    note jj = joinRoom_success [OF pre, of now]
    have st: "status ?rm1 \<noteq> Finished" using pre(8) by simp
    have own: "map_option u_nickname (map_of (users (joinRoom h ws r pw res now)) ws)
                 = Some (u_nickname u)"
      by (simp add: jj map_of_mapSet)
    show ?thesis
    proof (intro ballI allI impI)
      fix x s pv
      assume x: "x \<in> set (drop (length (outbox h)) (outbox (joinRoom h ws r pw res now)))"
        and s: "snd x = RoomJoined s \<or> snd x = RoomUpdated s"
        and pv: "pv \<in> set (s_players s)" and vis: "v_role pv \<noteq> None"
      from x s have "(x = (ws, RoomJoined (sanitizeRoomForClient ?rm1 (Some (u_nickname u))))
                      \<and> s = sanitizeRoomForClient ?rm1 (Some (u_nickname u)))
                   \<or> s = sanitizeRoomForClient ?rm1 None"
        by (auto simp: jj split: if_splits)
      then show "map_option u_nickname (map_of (users (joinRoom h ws r pw res now)) (fst x))
                      = Some (v_nickname pv)"
      proof
        assume "x = (ws, RoomJoined (sanitizeRoomForClient ?rm1 (Some (u_nickname u))))
                      \<and> s = sanitizeRoomForClient ?rm1 (Some (u_nickname u))"
        then show ?thesis
          using c [of ?rm1 "Some (u_nickname u)"] pv vis st own by auto
      next
        assume "s = sanitizeRoomForClient ?rm1 None"
        then show ?thesis
          using c [of ?rm1 None] pv vis st by auto
      qed
    qed
  qed
  from a b c [of rm viewer] d e f show ?thesis by blast
qed

theorem role_visibility_witness:
  "map (\<lambda>pv. (v_nickname pv, v_role pv))
       (s_players (sanitizeRoomForClient (newRoom table4 plainSettings) (Some ''bob'')))
     = [(''ann'', None), (''bob'', Some Citizen), (''cat'', None), (''dan'', None)]
   \<and> status (newRoom table4 plainSettings) = Playing
   \<and> list_all (\<lambda>pv. v_role pv = None)
       (s_players (sanitizeRoomForClient (newRoom table4 plainSettings) None))
   \<and> map_option (\<lambda>rm. map (\<lambda>p. (nickname p, role p)) (r_players rm))
        (map_of (rooms (joinRoom replayHandler 2 ''room_1'' None (DbValue None) 7)) ''room_1'')
       = Some [(''ann'', Some Don), (''bob'', None)]
   \<and> map (\<lambda>x. (fst x, case snd x of
                            RoomJoined s \<Rightarrow> map v_role (s_players s)
                          | RoomUpdated s \<Rightarrow> map v_role (s_players s)
                          | _ \<Rightarrow> []))
       (outbox (joinRoom replayHandler 2 ''room_1'' None (DbValue None) 7))
     = [(2, [None, None]), (1, [None, None]), (2, [None, None]), (1, []), (2, [])]
   \<and> list_all (\<lambda>x. \<forall>s. snd x = RoomJoined s \<or> snd x = RoomUpdated s \<longrightarrow>
               (\<forall>pv \<in> set (s_players s).
                  v_role pv \<noteq> None \<longrightarrow>
                    map_option u_nickname
                      (map_of (users (joinRoom replayHandler 2 ''room_1'' None (DbValue None) 7))
                         (fst x))
                      = Some (v_nickname pv)))
       (outbox (joinRoom replayHandler 2 ''room_1'' None (DbValue None) 7))"
proof -
  have v: "map (\<lambda>pv. (v_nickname pv, v_role pv))
       (s_players (sanitizeRoomForClient (newRoom table4 plainSettings) (Some ''bob'')))
     = [(''ann'', None), (''bob'', Some Citizen), (''cat'', None), (''dan'', None)]"
    by (simp add: sanitizeRoomForClient_def fixture_defs table4_def)
  have st: "status (newRoom table4 plainSettings) = Playing"
    by (simp add: newRoom_def)
  then have "status (newRoom table4 plainSettings) \<noteq> Finished" by simp
  with role_visibility [of "newRoom table4 plainSettings"]
  have "\<forall>pv \<in> set (s_players (sanitizeRoomForClient (newRoom table4 plainSettings) None)).
          v_role pv = None"
    by blast
  then have n: "list_all (\<lambda>pv. v_role pv = None)
       (s_players (sanitizeRoomForClient (newRoom table4 plainSettings) None))"
    by (simp add: list_all_iff)
  let ?j = "joinRoom replayHandler 2 ''room_1'' None (DbValue None) 7"
  let ?bob = "\<lparr>u_nickname = ''bob'', u_avatar = [], currentRoom = None, isAuthenticated = True\<rparr>"
  let ?rm0 = "lobbyRoom\<lparr>password := None,
                   r_players := [\<lparr>nickname = ''ann'', avatar = [], isCreator = True,
                                  isReady = False, role = Some Don, isAlive = True\<rparr>]\<rparr>"
  have pre: "map_of (users replayHandler) 2 = Some ?bob \<and> isAuthenticated ?bob
       \<and> \<not> truthy (currentRoom ?bob)
       \<and> map_of (rooms replayHandler) ''room_1'' = Some ?rm0 \<and> DbValue None = DbValue None
       \<and> (\<forall>d. None = Some d \<longrightarrow> \<not> truthy (db_password d) \<or> db_password d = None)
       \<and> length (r_players ?rm0) < maxPlayers ?rm0 \<and> status ?rm0 = Waiting"
    by (simp add: replayHandler_def lobbyHandler_def lobbyRoom_def truthy_def)
  have empty: "outbox replayHandler = []"
    by (simp add: replayHandler_def lobbyHandler_def)
  have roster: "map_option (\<lambda>rm. map (\<lambda>p. (nickname p, role p)) (r_players rm))
        (map_of (rooms ?j) ''room_1'') = Some [(''ann'', Some Don), (''bob'', None)]"
    by (simp add: joinRoom_def replayHandler_def lobbyHandler_def lobbyRoom_def truthy_def
        broadcastToRoom_def send_def sanitizeRoomForClient_def Let_def)
  have shown: "map (\<lambda>x. (fst x, case snd x of
                            RoomJoined s \<Rightarrow> map v_role (s_players s)
                          | RoomUpdated s \<Rightarrow> map v_role (s_players s)
                          | _ \<Rightarrow> []))
       (outbox ?j)
     = [(2, [None, None]), (1, [None, None]), (2, [None, None]), (1, []), (2, [])]"
    by (simp add: joinRoom_def replayHandler_def lobbyHandler_def lobbyRoom_def truthy_def
        broadcastToRoom_def send_def sanitizeRoomForClient_def Let_def)
  from role_visibility [where h = replayHandler and ws = 2 and u = ?bob and r = "''room_1''"
         and ?rm0.0 = ?rm0 and res = "DbValue None" and row = None and pw = None and now = 7] pre
  have vis: "\<forall>x \<in> set (drop (length (outbox replayHandler)) (outbox ?j)).
             \<forall>s. snd x = RoomJoined s \<or> snd x = RoomUpdated s \<longrightarrow>
               (\<forall>pv \<in> set (s_players s).
                  v_role pv \<noteq> None \<longrightarrow>
                    map_option u_nickname (map_of (users ?j) (fst x)) = Some (v_nickname pv))"
    by blast
  then have inst: "list_all (\<lambda>x. \<forall>s. snd x = RoomJoined s \<or> snd x = RoomUpdated s \<longrightarrow>
               (\<forall>pv \<in> set (s_players s).
                  v_role pv \<noteq> None \<longrightarrow>
                    map_option u_nickname (map_of (users ?j) (fst x)) = Some (v_nickname pv)))
       (outbox ?j)"
    unfolding empty list_all_iff by simp
  from v st n roster shown inst show ?thesis by blast
qed

section \<open>One connection per identity\<close>

lemmas handler_defs =
  handleLogin_def handleDisconnect_def closeEvent_def leaveRoom_def send_def sendError_def
  closeSocket_def truthy_def mapDelete_def Let_def

text \<open>
  Claim C7 at a concrete run. The second login of alice, on connection 2, sends the
  kicked notice to connection 1, starts closing it and binds the nickname to connection 2.
  When the close event of connection 1 arrives, \<open>handleDisconnect\<close> deletes the entry of
  the nickname from the index although it now points to connection 2. The third login, on
  connection 3, therefore finds no connection to terminate: connections 2 and 3 are both
  open and both bound to alice, and connection 2 has received no notice.
\<close>

theorem relogin_after_close_leaves_two_connections:
  "outbox aliceSecond
     = [(1, LoginSuccess ''alice'' []), (1, Kicked), (2, LoginSuccess ''alice'' [])]
   \<and> sockets aliceSecond 1 = Closing
   \<and> usersByNickname aliceSecond = [(''alice'', 2)]
   \<and> map (\<lambda>x. (fst x, u_nickname (snd x))) (users aliceAfterClose) = [(2, ''alice'')]
   \<and> usersByNickname aliceAfterClose = []
   \<and> map (\<lambda>x. (fst x, u_nickname (snd x), sockets aliceThird (fst x))) (users aliceThird)
       = [(2, ''alice'', Open), (3, ''alice'', Open)]
   \<and> usersByNickname aliceThird = [(''alice'', 3)]
   \<and> filter (\<lambda>x. snd x = Kicked) (outbox aliceThird) = [(1, Kicked)]"
  by (simp add: aliceThird_def aliceAfterClose_def aliceSecond_def aliceFirst_def
      aliceAccount_def emptyHandler_def handler_defs)

section \<open>Further facts about resolution and login\<close>

text \<open>
  Every call of a resolution ends the phase instance it finds: a night resolution leaves
  the game in the day of the same day number with 120 seconds and no pending action, or
  detached; a day resolution leaves it in the night of the next day number with 60
  seconds and no pending action, or detached. Once the game is detached, the resolutions,
  the completion check and a submission change nothing.
\<close>

theorem resolution_ends_phase_instance:
  "(game (room e) = Some g \<longrightarrow>
      (game (room (processNightActions e)) = None
       \<or> (\<exists>g'. game (room (processNightActions e)) = Some g' \<and> phase g' = Day
                \<and> day g' = day g \<and> timeLeft g' = 120 \<and> actions g' = []))
      \<and> (game (room (processDayVoting e)) = None
       \<or> (\<exists>g'. game (room (processDayVoting e)) = Some g' \<and> phase g' = Night
                \<and> day g' = day g + 1 \<and> timeLeft g' = 60 \<and> actions g' = [])))
   \<and> (game (room e) = None \<longrightarrow>
        processNightActions e = e \<and> processDayVoting e = e \<and> checkPhaseCompletion e = e
        \<and> handleAction e n act tgt now = e)"
proof -
  have night: "game (room (processNightActions e)) = None
       \<or> (\<exists>g'. game (room (processNightActions e)) = Some g' \<and> phase g' = Day
                \<and> day g' = day g \<and> timeLeft g' = 120 \<and> actions g' = [])"
    if "game (room e) = Some g"
  proof (cases "decideWinner (nightOutcome g)")
    case None
    then show ?thesis using that
      by (simp add: processNightActions_def checkWinConditions_def setGame_def
          startPhaseTimer_def nightOutcome_def Let_def split: option.split)
  next
    case (Some w)
    then show ?thesis using that night_resolution_outcome [OF that] by simp
  qed
  have day: "game (room (processDayVoting e)) = None
       \<or> (\<exists>g'. game (room (processDayVoting e)) = Some g' \<and> phase g' = Night
                \<and> day g' = day g + 1 \<and> timeLeft g' = 60 \<and> actions g' = [])"
    if "game (room e) = Some g"
  proof (cases "decideWinner (dayOutcome g)")
    case None
    have "day (dayOutcome g) = day g"
      by (simp add: dayOutcome_def Let_def split: prod.split option.split)
    then show ?thesis using that None
      by (simp add: processDayVoting_def checkWinConditions_def setGame_def
          startPhaseTimer_def Let_def)
  next
    case (Some w)
    then show ?thesis using that day_resolution_outcome [OF that] by simp
  qed
  have ended: "processNightActions e = e \<and> processDayVoting e = e \<and> checkPhaseCompletion e = e
        \<and> handleAction e n act tgt now = e"
    if "game (room e) = None"
    using that
    by (simp add: processNightActions_def processDayVoting_def checkPhaseCompletion_def
        handleAction_def)
  from night day ended show ?thesis by blast
qed

theorem resolution_ends_phase_instance_witness:
  "game (room firstKill) = Some (the (game (room firstKill)))
   \<and> map_option (\<lambda>g. (phase g, day g, timeLeft g, actions g))
        (game (room (processNightActions firstKill)))
       = Some (Day, day (the (game (room firstKill))), 120, [])
   \<and> game (room (handleAction loversNight ''bob'' ''kill'' (Some ''dan'') 2)) = None
   \<and> processNightActions (handleAction loversNight ''bob'' ''kill'' (Some ''dan'') 2)
       = handleAction loversNight ''bob'' ''kill'' (Some ''dan'') 2"
proof -
  have g: "game (room firstKill) = Some (the (game (room firstKill)))"
    by (simp add: engine_defs fixture_defs table9_def firstKill_def)
  have att: "game (room (processNightActions firstKill)) \<noteq> None"
    by (simp add: engine_defs fixture_defs table9_def firstKill_def)
  from resolution_ends_phase_instance [of firstKill "the (game (room firstKill))"] g att
  have a: "map_option (\<lambda>g. (phase g, day g, timeLeft g, actions g))
        (game (room (processNightActions firstKill)))
       = Some (Day, day (the (game (room firstKill))), 120, [])"
    by auto
  have d: "game (room (handleAction loversNight ''bob'' ''kill'' (Some ''dan'') 2)) = None"
    by (simp add: loversNight_def loversSettings_def engine_defs fixture_defs table6_def)
  from resolution_ends_phase_instance
         [of "handleAction loversNight ''bob'' ''kill'' (Some ''dan'') 2"] d
  have b: "processNightActions (handleAction loversNight ''bob'' ''kill'' (Some ''dan'') 2)
       = handleAction loversNight ''bob'' ''kill'' (Some ''dan'') 2"
    by blast
  from g a d b show ?thesis by blast
qed

text \<open>
  A login for a nickname that the index binds to another connection sends the kicked
  notice to that connection if it is open, starts closing it, and then binds the nickname
  and the new connection to each other; the notice precedes the login answer.
\<close>

theorem handleLogin_replaces_connection:
  assumes "n \<noteq> []" and "truthy pw" and "map_of (usersByNickname h) n = Some old"
    and "old \<noteq> ws"
  shows "sockets (handleLogin h ws (Some n) pw (DbValue (Some acct))) old
           = (if sockets h old = Closed then Closed else Closing)
    \<and> map_of (usersByNickname (handleLogin h ws (Some n) pw (DbValue (Some acct)))) n = Some ws
    \<and> map_of (users (handleLogin h ws (Some n) pw (DbValue (Some acct)))) ws
        = Some \<lparr>u_nickname = db_nickname acct, u_avatar = db_avatar acct, currentRoom = None,
                isAuthenticated = True\<rparr>
    \<and> outbox (handleLogin h ws (Some n) pw (DbValue (Some acct)))
        = outbox h @ (if sockets h old = Open then [(old, Kicked)] else [])
            @ (if sockets h ws = Open
               then [(ws, LoginSuccess (db_nickname acct) (db_avatar acct))] else [])"
  using assms
  by (simp add: handleLogin_def truthy_def Let_def closeSocket_def send_def map_of_mapSet)

theorem handleLogin_replaces_connection_witness:
  "map_of (usersByNickname aliceFirst) ''alice'' = Some 1
   \<and> sockets aliceSecond 1 = Closing
   \<and> map_of (usersByNickname aliceSecond) ''alice'' = Some 2
   \<and> outbox aliceSecond
       = outbox aliceFirst @ [(1, Kicked), (2, LoginSuccess ''alice'' [])]"
proof -
  have i: "map_of (usersByNickname aliceFirst) ''alice'' = Some 1"
    and o1: "sockets aliceFirst 1 = Open" and o2: "sockets aliceFirst 2 = Open"
    by (simp_all add: aliceFirst_def aliceAccount_def emptyHandler_def handler_defs)
  have ne: "''alice'' \<noteq> []" and pw: "truthy (Some ''pass'')" and d: "(1::nat) \<noteq> 2"
    by (simp_all add: truthy_def)
  from handleLogin_replaces_connection [OF ne pw i d, of aliceAccount] o1 o2
  show ?thesis
    using i by (simp add: aliceSecond_def aliceAccount_def)
qed

section \<open>Day vote in general\<close>

lemma set_mapSet: "set (mapSet k v m) \<subseteq> insert (k, v) (set m)"
  by (induction m) (auto split: if_splits)

lemma set_objectEntries: "set (objectEntries obj) = set obj"
  by (auto simp: objectEntries_def)

lemma countVote_regular:
  assumes "t \<notin> set inheritedNames" and "t \<noteq> ''__proto__''"
    and "\<forall>y \<in> set vs. \<exists>n. snd y = Num n"
  shows "\<exists>n. countVote vs t = mapSet t (Num (Suc n)) vs
             \<and> (map_of vs t = None \<and> n = 0 \<or> map_of vs t = Some (Num n))"
proof (cases "map_of vs t")
  case None
  then show ?thesis using assms(1,2) by (simp add: countVote_def)
next
  case (Some v)
  then have "(t, v) \<in> set vs" by (rule map_of_SomeD)
  with assms(3) obtain n where "v = Num n" by force
  with Some show ?thesis by (simp add: countVote_def)
qed

lemma tally_fold:
  assumes "\<forall>t \<in> set ts. t \<notin> set inheritedNames \<and> t \<noteq> ''__proto__''"
    and "\<forall>y \<in> set vs. \<exists>n. snd y = Num n"
  shows "(\<forall>y \<in> set (foldl countVote vs ts). \<exists>n. snd y = Num n)
    \<and> (\<forall>t. map_of (foldl countVote vs ts) t =
          (if t \<in> set ts
           then Some (Num (count_list ts t
                        + (case map_of vs t of Some (Num n) \<Rightarrow> n | _ \<Rightarrow> 0)))
           else map_of vs t))"
  using assms
proof (induction ts arbitrary: vs)
  case Nil
  then show ?case by simp
next
  case (Cons a ts)
  from Cons.prems have reg: "a \<notin> set inheritedNames" "a \<noteq> ''__proto__''" by auto
  from countVote_regular [OF reg Cons.prems(2)] obtain n
    where cv: "countVote vs a = mapSet a (Num (Suc n)) vs"
      and n: "map_of vs a = None \<and> n = 0 \<or> map_of vs a = Some (Num n)"
    by blast
  have num: "\<forall>y \<in> set (countVote vs a). \<exists>n. snd y = Num n"
    using Cons.prems(2) set_mapSet [of a "Num (Suc n)" vs] unfolding cv by fastforce
  have regs: "\<forall>t \<in> set ts. t \<notin> set inheritedNames \<and> t \<noteq> ''__proto__''"
    using Cons.prems(1) by simp
  note IH = Cons.IH [OF regs num]
  have m: "map_of (countVote vs a) = (map_of vs)(a \<mapsto> Num (Suc n))"
    by (simp add: cv map_of_mapSet)
  have "map_of (foldl countVote (countVote vs a) ts) t =
          (if t \<in> set (a # ts)
           then Some (Num (count_list (a # ts) t
                        + (case map_of vs t of Some (Num n) \<Rightarrow> n | _ \<Rightarrow> 0)))
           else map_of vs t)" for t
    using IH n by (auto simp: m)
  with IH show ?case by simp
qed

lemma tallyVotes_fold:
  "foldl (\<lambda>votes (voter, a).
              if action a = ''vote'' \<and> truthy (target a)
              then (case target a of None \<Rightarrow> votes | Some t \<Rightarrow> countVote votes t)
              else votes) vs acts
   = foldl countVote vs
       (List.map_filter (\<lambda>x. if action (snd x) = ''vote'' \<and> truthy (target (snd x))
                              then target (snd x) else None) acts)"
proof (induction acts arbitrary: vs)
  case Nil
  then show ?case by (simp add: List.map_filter_simps)
next
  case (Cons x acts)
  obtain voter a where x: "x = (voter, a)" by (cases x)
  show ?case
  proof (cases "action a = ''vote'' \<and> truthy (target a)")
    case True
    then obtain t where "target a = Some t"
      by (cases "target a") (auto simp: truthy_def)
    with True show ?thesis
      unfolding x by (simp add: Cons.IH List.map_filter_simps)
  next
    case False
    then show ?thesis
      unfolding x by (auto simp add: Cons.IH List.map_filter_simps)
  qed
qed

lemma count_vote_targets:
  assumes "t \<noteq> []"
  shows "count_list (List.map_filter (\<lambda>x. if action (snd x) = ''vote'' \<and> truthy (target (snd x))
                              then target (snd x) else None) acts) t
         = length (filter (\<lambda>x. action (snd x) = ''vote'' \<and> target (snd x) = Some t) acts)"
  using assms
  by (induction acts) (auto simp: List.map_filter_simps truthy_def split: option.splits)

lemma set_vote_targets:
  "set (List.map_filter (\<lambda>x. if action (snd x) = ''vote'' \<and> truthy (target (snd x))
                              then target (snd x) else None) acts)
   = {t. t \<noteq> [] \<and> (\<exists>x \<in> set acts. action (snd x) = ''vote'' \<and> target (snd x) = Some t)}"
  by (induction acts) (auto simp: List.map_filter_simps truthy_def split: option.splits)

lemma pickMax_spec:
  "\<exists>M w'. pickMax es m w = (M, w') \<and> m \<le> M
     \<and> (M = m \<longrightarrow> w' = w \<and> (\<forall>y \<in> set es. \<forall>n. snd y = Num n \<longrightarrow> n \<le> m))
     \<and> (m < M \<longrightarrow> (\<exists>pre t post. es = pre @ (t, Num M) # post \<and> w' = Some t
            \<and> (\<forall>y \<in> set pre. \<forall>n. snd y = Num n \<longrightarrow> n < M)
            \<and> (\<forall>y \<in> set post. \<forall>n. snd y = Num n \<longrightarrow> n \<le> M)))"
proof (induction es m w rule: pickMax.induct)
  case (1 maxVotes votedOut)
  then show ?case by simp
next
  case (2 t n es maxVotes votedOut)
  show ?case
  proof (cases "n > maxVotes")
    case True
    from 2(1) [OF True] obtain M w' where r: "pickMax es n (Some t) = (M, w')" and le: "n \<le> M"
      and eq: "M = n \<longrightarrow> w' = Some t \<and> (\<forall>y \<in> set es. \<forall>k. snd y = Num k \<longrightarrow> k \<le> n)"
      and gt: "n < M \<longrightarrow> (\<exists>pre t' post. es = pre @ (t', Num M) # post \<and> w' = Some t'
            \<and> (\<forall>y \<in> set pre. \<forall>k. snd y = Num k \<longrightarrow> k < M)
            \<and> (\<forall>y \<in> set post. \<forall>k. snd y = Num k \<longrightarrow> k \<le> M))"
      by blast
    have res: "pickMax ((t, Num n) # es) maxVotes votedOut = (M, w')"
      using True r by simp
    have lt: "maxVotes < M" using True le by simp
    have "\<exists>pre t' post. (t, Num n) # es = pre @ (t', Num M) # post \<and> w' = Some t'
            \<and> (\<forall>y \<in> set pre. \<forall>k. snd y = Num k \<longrightarrow> k < M)
            \<and> (\<forall>y \<in> set post. \<forall>k. snd y = Num k \<longrightarrow> k \<le> M)"
    proof (cases "M = n")
      case True
      with eq have "(t, Num n) # es = [] @ (t, Num M) # es \<and> w' = Some t
            \<and> (\<forall>y \<in> set []. \<forall>k. snd y = Num k \<longrightarrow> k < M)
            \<and> (\<forall>y \<in> set es. \<forall>k. snd y = Num k \<longrightarrow> k \<le> M)"
        by simp
      then show ?thesis by blast
    next
      case False
      with le have "n < M" by simp
      with gt obtain pre t' post where d: "es = pre @ (t', Num M) # post" "w' = Some t'"
            "\<forall>y \<in> set pre. \<forall>k. snd y = Num k \<longrightarrow> k < M"
            "\<forall>y \<in> set post. \<forall>k. snd y = Num k \<longrightarrow> k \<le> M"
        by blast
      have "(t, Num n) # es = ((t, Num n) # pre) @ (t', Num M) # post \<and> w' = Some t'
            \<and> (\<forall>y \<in> set ((t, Num n) # pre). \<forall>k. snd y = Num k \<longrightarrow> k < M)
            \<and> (\<forall>y \<in> set post. \<forall>k. snd y = Num k \<longrightarrow> k \<le> M)"
        using d \<open>n < M\<close> by simp
      then show ?thesis by blast
    qed
    with res lt show ?thesis by auto
  next
    case False
    from 2(2) [OF False] obtain M w' where r: "pickMax es maxVotes votedOut = (M, w')"
      and le: "maxVotes \<le> M"
      and eq: "M = maxVotes \<longrightarrow> w' = votedOut
                 \<and> (\<forall>y \<in> set es. \<forall>k. snd y = Num k \<longrightarrow> k \<le> maxVotes)"
      and gt: "maxVotes < M \<longrightarrow> (\<exists>pre t' post. es = pre @ (t', Num M) # post \<and> w' = Some t'
            \<and> (\<forall>y \<in> set pre. \<forall>k. snd y = Num k \<longrightarrow> k < M)
            \<and> (\<forall>y \<in> set post. \<forall>k. snd y = Num k \<longrightarrow> k \<le> M))"
      by blast
    have res: "pickMax ((t, Num n) # es) maxVotes votedOut = (M, w')"
      using False r by simp
    have a: "M = maxVotes \<longrightarrow> w' = votedOut
               \<and> (\<forall>y \<in> set ((t, Num n) # es). \<forall>k. snd y = Num k \<longrightarrow> k \<le> maxVotes)"
      using eq False by auto
    have b: "maxVotes < M \<longrightarrow> (\<exists>pre t' post. (t, Num n) # es = pre @ (t', Num M) # post
            \<and> w' = Some t'
            \<and> (\<forall>y \<in> set pre. \<forall>k. snd y = Num k \<longrightarrow> k < M)
            \<and> (\<forall>y \<in> set post. \<forall>k. snd y = Num k \<longrightarrow> k \<le> M))"
    proof
      assume lt: "maxVotes < M"
      with gt obtain pre t' post where d: "es = pre @ (t', Num M) # post" "w' = Some t'"
            "\<forall>y \<in> set pre. \<forall>k. snd y = Num k \<longrightarrow> k < M"
            "\<forall>y \<in> set post. \<forall>k. snd y = Num k \<longrightarrow> k \<le> M"
        by blast
      have "(t, Num n) # es = ((t, Num n) # pre) @ (t', Num M) # post \<and> w' = Some t'
            \<and> (\<forall>y \<in> set ((t, Num n) # pre). \<forall>k. snd y = Num k \<longrightarrow> k < M)
            \<and> (\<forall>y \<in> set post. \<forall>k. snd y = Num k \<longrightarrow> k \<le> M)"
        using d lt False by simp
      then show "\<exists>pre t' post. (t, Num n) # es = pre @ (t', Num M) # post \<and> w' = Some t'
            \<and> (\<forall>y \<in> set pre. \<forall>k. snd y = Num k \<longrightarrow> k < M)
            \<and> (\<forall>y \<in> set post. \<forall>k. snd y = Num k \<longrightarrow> k \<le> M)"
        by blast
    qed
    from res le a b show ?thesis by blast
  qed
next
  case (3 t es maxVotes votedOut)
  then obtain M w' where r: "pickMax es maxVotes votedOut = (M, w')"
      and le: "maxVotes \<le> M"
      and eq: "M = maxVotes \<longrightarrow> w' = votedOut
                 \<and> (\<forall>y \<in> set es. \<forall>k. snd y = Num k \<longrightarrow> k \<le> maxVotes)"
      and gt: "maxVotes < M \<longrightarrow> (\<exists>pre t' post. es = pre @ (t', Num M) # post \<and> w' = Some t'
            \<and> (\<forall>y \<in> set pre. \<forall>k. snd y = Num k \<longrightarrow> k < M)
            \<and> (\<forall>y \<in> set post. \<forall>k. snd y = Num k \<longrightarrow> k \<le> M))"
    by blast
  have res: "pickMax ((t, Str) # es) maxVotes votedOut = (M, w')" using r by simp
  have a: "M = maxVotes \<longrightarrow> w' = votedOut
               \<and> (\<forall>y \<in> set ((t, Str) # es). \<forall>k. snd y = Num k \<longrightarrow> k \<le> maxVotes)"
    using eq by auto
  have b: "maxVotes < M \<longrightarrow> (\<exists>pre t' post. (t, Str) # es = pre @ (t', Num M) # post
            \<and> w' = Some t'
            \<and> (\<forall>y \<in> set pre. \<forall>k. snd y = Num k \<longrightarrow> k < M)
            \<and> (\<forall>y \<in> set post. \<forall>k. snd y = Num k \<longrightarrow> k \<le> M))"
  proof
    assume lt: "maxVotes < M"
    with gt obtain pre t' post where d: "es = pre @ (t', Num M) # post" "w' = Some t'"
            "\<forall>y \<in> set pre. \<forall>k. snd y = Num k \<longrightarrow> k < M"
            "\<forall>y \<in> set post. \<forall>k. snd y = Num k \<longrightarrow> k \<le> M"
      by blast
    have "(t, Str) # es = ((t, Str) # pre) @ (t', Num M) # post \<and> w' = Some t'
            \<and> (\<forall>y \<in> set ((t, Str) # pre). \<forall>k. snd y = Num k \<longrightarrow> k < M)
            \<and> (\<forall>y \<in> set post. \<forall>k. snd y = Num k \<longrightarrow> k \<le> M)"
      using d by simp
    then show "\<exists>pre t' post. (t, Str) # es = pre @ (t', Num M) # post \<and> w' = Some t'
            \<and> (\<forall>y \<in> set pre. \<forall>k. snd y = Num k \<longrightarrow> k < M)
            \<and> (\<forall>y \<in> set post. \<forall>k. snd y = Num k \<longrightarrow> k \<le> M)"
      by blast
  qed
  from res le a b show ?case by blast
qed

text \<open>
  The day vote when no vote names a member of the object prototype. The tally holds, for
  every target, the number of pending vote actions that name it. With no vote cast nobody
  is voted out. Otherwise the target voted out is the first entry, in the order in which
  the entries of the tally are listed, whose count is the maximum: every entry before it
  has a strictly smaller count and no entry after it has a greater one. The player with
  that name is marked dead, and nobody if there is no such player.
\<close>

theorem day_vote_selection:
  assumes "\<forall>x \<in> set (actions g). \<forall>t. action (snd x) = ''vote'' \<and> target (snd x) = Some t
             \<longrightarrow> t \<notin> set inheritedNames \<and> t \<noteq> ''__proto__''"
  shows "(\<forall>t. t \<noteq> [] \<longrightarrow>
            map_of (tallyVotes (actions g)) t =
              (if filter (\<lambda>x. action (snd x) = ''vote'' \<and> target (snd x) = Some t) (actions g) = []
               then None
               else Some (Num (length (filter (\<lambda>x. action (snd x) = ''vote''
                                                \<and> target (snd x) = Some t) (actions g))))))
    \<and> ((\<forall>x \<in> set (actions g). \<not> (action (snd x) = ''vote'' \<and> truthy (target (snd x))))
        \<longrightarrow> players (dayOutcome g) = players g
            \<and> lastAction (dayOutcome g) = Some NobodyVotedOut)
    \<and> ((\<exists>x \<in> set (actions g). action (snd x) = ''vote'' \<and> truthy (target (snd x)))
        \<longrightarrow> (\<exists>pre t c post.
               objectEntries (tallyVotes (actions g)) = pre @ (t, Num c) # post
               \<and> 0 < c
               \<and> (\<forall>y \<in> set pre. \<exists>n. snd y = Num n \<and> n < c)
               \<and> (\<forall>y \<in> set post. \<exists>n. snd y = Num n \<and> n \<le> c)
               \<and> players (dayOutcome g) = markDead t (players g)
               \<and> (t \<in> nickname ` set (players g)
                    \<longrightarrow> lastAction (dayOutcome g) = Some (VotedOut t))))"
proof -
  let ?f = "\<lambda>x. if action (snd x) = ''vote'' \<and> truthy (target (snd x))
                 then target (snd x) else None"
  let ?ts = "List.map_filter ?f (actions g)"
  let ?tally = "tallyVotes (actions g)"
  have tally: "?tally = foldl countVote [] ?ts"
    unfolding tallyVotes_def by (rule tallyVotes_fold)
  have regs: "\<forall>t \<in> set ?ts. t \<notin> set inheritedNames \<and> t \<noteq> ''__proto__''"
    using assms unfolding set_vote_targets by blast
  from tally_fold [OF regs, of "[]"]
  have num: "\<forall>y \<in> set ?tally. \<exists>n. snd y = Num n"
    and look: "\<And>t. map_of ?tally t
                 = (if t \<in> set ?ts then Some (Num (count_list ?ts t)) else None)"
    unfolding tally by simp_all
  have one: "map_of ?tally t =
              (if filter (\<lambda>x. action (snd x) = ''vote'' \<and> target (snd x) = Some t) (actions g) = []
               then None
               else Some (Num (length (filter (\<lambda>x. action (snd x) = ''vote''
                                                \<and> target (snd x) = Some t) (actions g)))))"
    if "t \<noteq> []" for t
  proof -
    have c: "count_list ?ts t
         = length (filter (\<lambda>x. action (snd x) = ''vote'' \<and> target (snd x) = Some t) (actions g))"
      using that by (rule count_vote_targets)
    have "t \<in> set ?ts \<longleftrightarrow> count_list ?ts t \<noteq> 0"
      by (simp add: count_list_0_iff)
    then show ?thesis using c look [of t] by auto
  qed
  have two: "players (dayOutcome g) = players g \<and> lastAction (dayOutcome g) = Some NobodyVotedOut"
    if "\<forall>x \<in> set (actions g). \<not> (action (snd x) = ''vote'' \<and> truthy (target (snd x)))"
  proof -
    have "set ?ts = {}" unfolding set_vote_targets using that by (auto simp: truthy_def)
    then have "?ts = []" by simp
    then have "?tally = []" by (simp add: tally)
    then show ?thesis
      by (simp add: dayOutcome_def objectEntries_def truthy_def)
  qed
  have three: "\<exists>pre t c post.
               objectEntries ?tally = pre @ (t, Num c) # post
               \<and> 0 < c
               \<and> (\<forall>y \<in> set pre. \<exists>n. snd y = Num n \<and> n < c)
               \<and> (\<forall>y \<in> set post. \<exists>n. snd y = Num n \<and> n \<le> c)
               \<and> players (dayOutcome g) = markDead t (players g)
               \<and> (t \<in> nickname ` set (players g)
                    \<longrightarrow> lastAction (dayOutcome g) = Some (VotedOut t))"
    if "\<exists>x \<in> set (actions g). action (snd x) = ''vote'' \<and> truthy (target (snd x))"
  proof -
    from that obtain x t0 where "x \<in> set (actions g)" "action (snd x) = ''vote''"
      "target (snd x) = Some t0" "t0 \<noteq> []"
      by (auto simp: truthy_def split: option.splits)
    then have t0: "t0 \<in> set ?ts" unfolding set_vote_targets by blast
    then have "count_list ?ts t0 \<noteq> 0" by (simp only: count_list_0_iff not_not)
    then have cpos: "0 < count_list ?ts t0" by simp
    have "map_of ?tally t0 = Some (Num (count_list ?ts t0))"
      using look [of t0] t0 by simp
    then have "(t0, Num (count_list ?ts t0)) \<in> set ?tally" by (rule map_of_SomeD)
    then have c0: "(t0, Num (count_list ?ts t0)) \<in> set (objectEntries ?tally)"
      by (simp only: set_objectEntries)
    from pickMax_spec [of "objectEntries ?tally" 0 None]
    obtain M w' where pm: "pickMax (objectEntries ?tally) 0 None = (M, w')"
      and eq: "M = 0 \<longrightarrow> (\<forall>y \<in> set (objectEntries ?tally). \<forall>n. snd y = Num n \<longrightarrow> n \<le> 0)"
      and gt: "0 < M \<longrightarrow> (\<exists>pre t post. objectEntries ?tally = pre @ (t, Num M) # post
            \<and> w' = Some t
            \<and> (\<forall>y \<in> set pre. \<forall>n. snd y = Num n \<longrightarrow> n < M)
            \<and> (\<forall>y \<in> set post. \<forall>n. snd y = Num n \<longrightarrow> n \<le> M))"
      by blast
    have pos: "0 < M"
    proof (rule ccontr)
      assume "\<not> 0 < M"
      then have "M = 0" by simp
      with eq have "\<forall>y \<in> set (objectEntries ?tally). \<forall>n. snd y = Num n \<longrightarrow> n \<le> 0"
        by simp
      from bspec [OF this c0] have "count_list ?ts t0 \<le> 0" by simp
      with cpos show False by simp
    qed
    with gt obtain pre t post where d: "objectEntries ?tally = pre @ (t, Num M) # post"
      and w: "w' = Some t"
      and p1: "\<forall>y \<in> set pre. \<forall>n. snd y = Num n \<longrightarrow> n < M"
      and p2: "\<forall>y \<in> set post. \<forall>n. snd y = Num n \<longrightarrow> n \<le> M"
      by blast
    have allnum: "\<forall>y \<in> set (objectEntries ?tally). \<exists>n. snd y = Num n"
      using num unfolding set_objectEntries .
    have q1: "\<forall>y \<in> set pre. \<exists>n. snd y = Num n \<and> n < M"
    proof
      fix y assume y: "y \<in> set pre"
      then have "y \<in> set (objectEntries ?tally)" by (simp add: d)
      with allnum obtain n where "snd y = Num n" by blast
      with p1 y show "\<exists>n. snd y = Num n \<and> n < M" by blast
    qed
    have q2: "\<forall>y \<in> set post. \<exists>n. snd y = Num n \<and> n \<le> M"
    proof
      fix y assume y: "y \<in> set post"
      then have "y \<in> set (objectEntries ?tally)" by (simp add: d)
      with allnum obtain n where "snd y = Num n" by blast
      with p2 y show "\<exists>n. snd y = Num n \<and> n \<le> M" by blast
    qed
    have "(t, Num M) \<in> set (objectEntries ?tally)" by (simp add: d)
    then have "(t, Num M) \<in> set ?tally" by (simp only: set_objectEntries)
    from weak_map_of_SomeI [OF this] have "map_of ?tally t \<noteq> None" by auto
    then have "t \<in> set ?ts" using look [of t] by (auto split: if_splits)
    then have tne: "t \<noteq> []" unfolding set_vote_targets by simp
    have out: "players (dayOutcome g) = markDead t (players g)
               \<and> (t \<in> nickname ` set (players g)
                    \<longrightarrow> lastAction (dayOutcome g) = Some (VotedOut t))"
    proof (cases "findPlayer t (players g)")
      case None
      then have "t \<notin> nickname ` set (players g)" by (simp add: findPlayer_None)
      then show ?thesis
        using None pm w pos tne
        by (simp add: dayOutcome_def truthy_def markDead_absent)
    next
      case (Some p)
      then show ?thesis
        using pm w pos tne by (simp add: dayOutcome_def truthy_def)
    qed
    from d pos q1 q2 out show ?thesis by blast
  qed
  from one two three show ?thesis by blast
qed

theorem day_vote_selection_witness:
  "objectEntries (tallyVotes
      [(''ann'', \<lparr>action = ''vote'', target = Some ''cat'', timestamp = 1\<rparr>),
       (''bob'', \<lparr>action = ''vote'', target = Some ''dan'', timestamp = 2\<rparr>),
       (''cat'', \<lparr>action = ''vote'', target = Some ''dan'', timestamp = 3\<rparr>),
       (''dan'', \<lparr>action = ''vote'', target = Some ''cat'', timestamp = 4\<rparr>)])
     = [(''cat'', Num 2), (''dan'', Num 2)]
   \<and> map (\<lambda>p. (nickname p, isAlive p))
        (players (dayOutcome ((newGame table4)\<lparr>phase := Day, actions :=
          [(''ann'', \<lparr>action = ''vote'', target = Some ''cat'', timestamp = 1\<rparr>),
           (''bob'', \<lparr>action = ''vote'', target = Some ''dan'', timestamp = 2\<rparr>),
           (''cat'', \<lparr>action = ''vote'', target = Some ''dan'', timestamp = 3\<rparr>),
           (''dan'', \<lparr>action = ''vote'', target = Some ''cat'', timestamp = 4\<rparr>)]\<rparr>)))
     = [(''ann'', True), (''bob'', True), (''cat'', False), (''dan'', True)]
   \<and> map_of (tallyVotes
      [(''ann'', \<lparr>action = ''vote'', target = Some ''cat'', timestamp = 1\<rparr>),
       (''bob'', \<lparr>action = ''vote'', target = Some ''dan'', timestamp = 2\<rparr>),
       (''cat'', \<lparr>action = ''vote'', target = Some ''dan'', timestamp = 3\<rparr>),
       (''dan'', \<lparr>action = ''vote'', target = Some ''cat'', timestamp = 4\<rparr>)]) ''dan''
     = Some (Num 2)"
proof -
  let ?acts = "[(''ann'', \<lparr>action = ''vote'', target = Some ''cat'', timestamp = 1\<rparr>),
       (''bob'', \<lparr>action = ''vote'', target = Some ''dan'', timestamp = 2\<rparr>),
       (''cat'', \<lparr>action = ''vote'', target = Some ''dan'', timestamp = 3\<rparr>),
       (''dan'', \<lparr>action = ''vote'', target = Some ''cat'', timestamp = 4::nat\<rparr>)]"
  let ?g = "(newGame table4)\<lparr>phase := Day, actions := ?acts\<rparr>"
  have reg: "\<forall>x \<in> set (actions ?g). \<forall>t. action (snd x) = ''vote'' \<and> target (snd x) = Some t
             \<longrightarrow> t \<notin> set inheritedNames \<and> t \<noteq> ''__proto__''"
    by (simp add: inheritedNames_def)
  have a: "objectEntries (tallyVotes ?acts) = [(''cat'', Num 2), (''dan'', Num 2)]"
    by (simp add: engine_defs)
  have b: "map (\<lambda>p. (nickname p, isAlive p)) (players (dayOutcome ?g))
     = [(''ann'', True), (''bob'', True), (''cat'', False), (''dan'', True)]"
    by (simp add: engine_defs fixture_defs table4_def)
  have "''dan'' \<noteq> []" by simp
  with day_vote_selection [OF reg]
  have "map_of (tallyVotes (actions ?g)) ''dan'' =
              (if filter (\<lambda>x. action (snd x) = ''vote'' \<and> target (snd x) = Some ''dan'')
                    (actions ?g) = []
               then None
               else Some (Num (length (filter (\<lambda>x. action (snd x) = ''vote''
                                                \<and> target (snd x) = Some ''dan'') (actions ?g)))))"
    by blast
  then have c: "map_of (tallyVotes ?acts) ''dan'' = Some (Num 2)"
    by simp
  from a b c show ?thesis by blast
qed

end
